theory Spec2Isabelle
  imports Complex_Main "HOL-Library.Word" "HOL-Library.Sublist"
begin

section \<open>Strings\<close>

text \<open>
  A JavaScript string is a sequence of 16-bit code units. String literals of the source
  are written \<open>lit ''...''\<close>; all of them are ASCII.
\<close>

type_synonym jsstring = "16 word list"

definition lit :: "string \<Rightarrow> jsstring" where
  "lit s = map of_char s"

text \<open>
  Case folding of one code unit. For the regular expression flag \<open>i\<close> (without \<open>u\<close>) two
  code units match when their canonical forms agree; a code unit of 128 or more never
  canonicalises to an ASCII one, so against the ASCII pattern characters used here the
  canonical form is the ASCII upper-case letter. The same map is \<open>toUpperCase\<close> on ASCII
  strings, the only ones it is applied to (the names of the view types).
\<close>

definition canonicalize :: "16 word \<Rightarrow> 16 word" where
  "canonicalize c = (if 97 \<le> c \<and> c \<le> 122 then c - 32 else c)"

definition toUpperCase :: "jsstring \<Rightarrow> jsstring" where
  "toUpperCase s = map canonicalize s"

text \<open>\<open>matchLit p s\<close>: the literal pattern \<open>p\<close> matches at the start of \<open>s\<close>, ignoring case.\<close>

fun matchLit :: "jsstring \<Rightarrow> jsstring \<Rightarrow> bool" where
  "matchLit [] s = True"
| "matchLit (p # ps) [] = False"
| "matchLit (p # ps) (c # cs) = (canonicalize p = canonicalize c \<and> matchLit ps cs)"

definition svgOpen :: jsstring where
  "svgOpen = lit ''<svg''"

definition svgClose :: jsstring where
  "svgClose = lit ''</svg>''"

text \<open>
  The tail \<^verbatim>\<open>[\s\S]*?<\/svg>\<close> of the pattern, run at the start of \<open>s\<close>: the lazy star
  first tries the closing tag, and only when that fails consumes one more code unit
  (any code unit at all). The result is the text consumed.
\<close>

fun lazyClose :: "jsstring \<Rightarrow> jsstring option" where
  "lazyClose [] = (if matchLit svgClose [] then Some [] else None)"
| "lazyClose (c # cs) =
     (if matchLit svgClose (c # cs) then Some (take (length svgClose) (c # cs))
      else map_option ((#) c) (lazyClose cs))"

text \<open>
  \<^verbatim>\<open>text.match(/<svg[\s\S]*?<\/svg>/i)\<close>: the engine tries each start position from the
  left; at a position where \<^verbatim>\<open><svg\<close> matches but no closing tag follows it backtracks
  and moves on to the next position. \<open>None\<close> is the \<^verbatim>\<open>null\<close> of no match, \<open>Some m\<close> is
  \<^verbatim>\<open>match[0]\<close>.
\<close>

fun svgMatch :: "jsstring \<Rightarrow> jsstring option" where
  "svgMatch [] = None"
| "svgMatch (c # cs) =
     (if matchLit svgOpen (c # cs) then
        (case lazyClose (drop (length svgOpen) (c # cs)) of
           Some m \<Rightarrow> Some (take (length svgOpen) (c # cs) @ m)
         | None \<Rightarrow> svgMatch cs)
      else svgMatch cs)"

definition fence :: jsstring where
  "fence = lit ''```''"

definition startsWith :: "jsstring \<Rightarrow> jsstring \<Rightarrow> bool" where
  "startsWith s p = prefix p s"

text \<open>
  \<^verbatim>\<open>text.replace(/```(xml|svg)?/g, '')\<close>: scanning from the left, every three backticks
  are removed together with a directly following \<^verbatim>\<open>xml\<close> or \<^verbatim>\<open>svg\<close> (case-sensitive);
  the scan continues after the removed text.
\<close>

function replaceFences :: "jsstring \<Rightarrow> jsstring" where
  "replaceFences [] = []"
| "replaceFences (c # cs) =
     (if startsWith (c # cs) fence then
        (let r = drop (length fence) (c # cs) in
         if startsWith r (lit ''xml'') \<or> startsWith r (lit ''svg'')
         then replaceFences (drop 3 r) else replaceFences r)
      else c # replaceFences cs)"
  by pat_completeness auto
termination
  by (relation "measure length") (auto simp: fence_def lit_def)

text \<open>The code units \<^verbatim>\<open>String.prototype.trim\<close> removes: white space and line terminators.\<close>

definition isWhiteSpace :: "16 word \<Rightarrow> bool" where
  "isWhiteSpace c \<longleftrightarrow>
     c \<in> {0x9, 0xA, 0xB, 0xC, 0xD, 0x20, 0xA0, 0x1680, 0x2028, 0x2029, 0x202F, 0x205F,
          0x3000, 0xFEFF}
     \<or> (0x2000 \<le> c \<and> c \<le> 0x200A)"

definition trim :: "jsstring \<Rightarrow> jsstring" where
  "trim s = rev (dropWhile isWhiteSpace (rev (dropWhile isWhiteSpace s)))"

definition extractSvg :: "jsstring \<Rightarrow> jsstring" where
  "extractSvg text =
     (case svgMatch text of Some m \<Rightarrow> m | None \<Rightarrow> trim (replaceFences text))"

text \<open>
  Position of the first occurrence (ignoring case) of a literal in a string; used to say
  where the first \<^verbatim>\<open><svg\<close> and the first \<^verbatim>\<open></svg>\<close> of a text are.
\<close>

fun findLit :: "jsstring \<Rightarrow> jsstring \<Rightarrow> nat option" where
  "findLit p [] = (if matchLit p [] then Some 0 else None)"
| "findLit p (c # cs) =
     (if matchLit p (c # cs) then Some 0 else map_option Suc (findLit p cs))"

section \<open>Data model\<close>

datatype GenerationStatus = IDLE | SEGMENTING | LOADING | AUDITING | HEALING | SUCCESS | ERROR

datatype ViewType = Side | Top | Isometric | Unknown

text \<open>The string a view type is at run time.\<close>

fun viewTypeName :: "ViewType \<Rightarrow> jsstring" where
  "viewTypeName Side = lit ''side''"
| "viewTypeName Top = lit ''top''"
| "viewTypeName Isometric = lit ''isometric''"
| "viewTypeName Unknown = lit ''unknown''"

record ImageData =
  data :: jsstring
  mimeType :: jsstring

text \<open>
  \<open>svgId\<close> is the field \<^verbatim>\<open>id\<close>. The interface declares \<^verbatim>\<open>id\<close> and \<^verbatim>\<open>viewType\<close>
  mandatory, but the refinement handler spreads a possibly undefined view, so the object
  it stores can lack them; \<open>None\<close> is the absent property. The time stamp is the integer
  of milliseconds \<^verbatim>\<open>Date.now()\<close> returns.
\<close>

record GeneratedSvg =
  svgId :: "jsstring option"
  content :: jsstring
  prompt :: jsstring
  timestamp :: nat
  auditReport :: "jsstring option"
  viewType :: "ViewType option"

record WarshipProject =
  projectId :: jsstring
  sideView :: "GeneratedSvg option"
  topView :: "GeneratedSvg option"
  originalImage :: ImageData

record ApiError =
  message :: jsstring
  details :: "jsstring option"

text \<open>
  A thrown or rejected value. All the program ever reads of one is its \<^verbatim>\<open>message\<close>
  property, undefined (\<open>None\<close>) for instance on the event an image element's
  \<^verbatim>\<open>onerror\<close> receives.
\<close>

datatype jserror = Thrown (errMessage: "jsstring option")

text \<open>
  The value \<^verbatim>\<open>JSON.parse\<close> returns; numbers are of the type \<open>'n\<close> of JavaScript numbers,
  which the model leaves open. An object is its list of members, looked up by key.
\<close>

datatype 'n json =
    JNull
  | JBool bool
  | JNum 'n
  | JStr jsstring
  | JArr "'n json list"
  | JObj "(jsstring \<times> 'n json) list"

section \<open>The world outside the program\<close>

text \<open>A request to the hosted model: the fields the program fills in.\<close>

datatype part = InlineData "jsstring option" jsstring | TextPart jsstring

record request =
  model :: jsstring
  parts :: "part list"
  systemInstruction :: "jsstring option"
  thinkingBudget :: "nat option"
  temperature :: "rat option"
  responseSchema :: bool

datatype stage = Draft | Audit | Heal

datatype callsite = Detect | Stage ViewType stage | Refine

text \<open>What was done to a canvas: the size assigned to it and the drawing calls, in order.\<close>

datatype 'n canvasOp =
    FillRect jsstring 'n 'n 'n 'n
  | DrawImage jsstring 'n 'n 'n 'n 'n 'n 'n 'n

record 'n canvas =
  canvasWidth :: 'n
  canvasHeight :: 'n
  drawn :: "'n canvasOp list"

text \<open>
  Everything the program calls but does not define is a field of the environment:
  \<^item> \<open>generateContent\<close>: the model client; \<open>Inl\<close> is a rejected promise, \<open>Inr t\<close> a response
    whose \<^verbatim>\<open>text\<close> is \<open>t\<close> (\<open>None\<close> for undefined). The call site is an argument so that
    two calls may be answered differently;
  \<^item> \<open>jsonParse\<close>: \<^verbatim>\<open>JSON.parse\<close>, \<open>Inl\<close> the SyntaxError it throws;
  \<^item> \<open>typeError\<close>: the TypeError the engine throws when a property of \<^verbatim>\<open>null\<close> or
    \<^verbatim>\<open>undefined\<close> is read;
  \<^item> \<open>loadImage\<close>: loading an image element from a URL; \<open>Inl\<close> is the argument of
    \<^verbatim>\<open>onerror\<close>, \<open>Inr\<close> the natural width and height seen by \<^verbatim>\<open>onload\<close>;
  \<^item> \<open>getContext\<close>: whether a canvas of the assigned size yields a 2d context;
  \<^item> \<open>readDim\<close>: the value read back from a canvas dimension after an assignment;
  \<^item> \<open>toDataURL\<close>: the encoder, given the canvas, the type and the quality;
  \<^item> \<open>numLit\<close>, \<open>toNumber\<close>, \<open>numTruthy\<close>, \<open>numAdd\<close>, \<open>numSub\<close>, \<open>numMul\<close>, \<open>numDiv\<close>: number
    literals, the coercion of a value (\<open>None\<close> is undefined) to a number, truthiness of a
    number and the arithmetic of JavaScript numbers;
  \<^item> \<open>randomUUID\<close> and \<open>dateNow\<close>: the results of the successive calls of
    \<^verbatim>\<open>crypto.randomUUID()\<close> and \<^verbatim>\<open>Date.now()\<close> in one run of a handler.
\<close>

record 'n env =
  generateContent :: "callsite \<Rightarrow> request \<Rightarrow> jserror + jsstring option"
  jsonParse :: "jsstring \<Rightarrow> jserror + 'n json"
  typeError :: jserror
  loadImage :: "jsstring \<Rightarrow> jserror + 'n \<times> 'n"
  getContext :: "'n \<Rightarrow> 'n \<Rightarrow> bool"
  readDim :: "'n \<Rightarrow> 'n"
  toDataURL :: "'n canvas \<Rightarrow> jsstring \<Rightarrow> 'n \<Rightarrow> jsstring"
  numLit :: "rat \<Rightarrow> 'n"
  toNumber :: "'n json option \<Rightarrow> 'n"
  numTruthy :: "'n \<Rightarrow> bool"
  numAdd :: "'n \<Rightarrow> 'n \<Rightarrow> 'n"
  numSub :: "'n \<Rightarrow> 'n \<Rightarrow> 'n"
  numMul :: "'n \<Rightarrow> 'n \<Rightarrow> 'n"
  numDiv :: "'n \<Rightarrow> 'n \<Rightarrow> 'n"
  randomUUID :: "nat \<Rightarrow> jsstring"
  dateNow :: "nat \<Rightarrow> nat"

section \<open>The model service\<close>

definition nl :: jsstring where
  "nl = [10]"

definition dq :: jsstring where
  "dq = [34]"

definition sq :: jsstring where
  "sq = [39]"

definition PRO_MODEL :: jsstring where
  "PRO_MODEL = lit ''gemini-3-pro-preview''"

definition FLASH_MODEL :: jsstring where
  "FLASH_MODEL = lit ''gemini-3-flash-preview''"

text \<open>\<^verbatim>\<open>a || b\<close> on a possibly undefined string: undefined and the empty string are falsy.\<close>

definition orElse :: "jsstring option \<Rightarrow> jsstring \<Rightarrow> jsstring" where
  "orElse a b = (case a of None \<Rightarrow> b | Some t \<Rightarrow> if t = [] then b else t)"

text \<open>
  \<^verbatim>\<open>s.split(',')[1]\<close>: the text between the first comma and the next one (or the end),
  undefined when \<open>s\<close> has no comma.
\<close>

definition splitComma1 :: "jsstring \<Rightarrow> jsstring option" where
  "splitComma1 s =
     (case dropWhile (\<lambda>c. c \<noteq> 44) s of
        [] \<Rightarrow> None
      | _ # r \<Rightarrow> Some (takeWhile (\<lambda>c. c \<noteq> 44) r))"

definition inlineData :: "ImageData \<Rightarrow> part" where
  "inlineData imageData = InlineData (splitComma1 (data imageData)) (mimeType imageData)"

text \<open>
  Reading a property of a parsed value that is not \<^verbatim>\<open>null\<close>: a member of an object,
  undefined on anything else (none of the keys read by the program is a property of
  strings, numbers, booleans, arrays or of the object prototype).
\<close>

fun getProp :: "'n json \<Rightarrow> jsstring \<Rightarrow> 'n json option" where
  "getProp (JObj kvs) k = map_of kvs k"
| "getProp _ k = None"

fun truthy :: "'n env \<Rightarrow> 'n json option \<Rightarrow> bool" where
  "truthy env None = False"
| "truthy env (Some JNull) = False"
| "truthy env (Some (JBool b)) = b"
| "truthy env (Some (JNum n)) = numTruthy env n"
| "truthy env (Some (JStr s)) = (s \<noteq> [])"
| "truthy env (Some (JArr xs)) = True"
| "truthy env (Some (JObj kvs)) = True"

subsection \<open>Image processing\<close>

text \<open>
  The promise \<open>cropImage\<close> returns: rejected with the load event when the image fails to
  load, rejected with an \<^verbatim>\<open>Error\<close> when the canvas gives no context, resolved otherwise.
  The box is the parsed value the caller passes on.
\<close>

definition cropImage :: "'n env \<Rightarrow> jsstring \<Rightarrow> 'n json \<Rightarrow> jserror + ImageData" where
  "cropImage env base64Data box =
     (case loadImage env base64Data of
        Inl e \<Rightarrow> Inl e
      | Inr (width, height) \<Rightarrow>
          (let x = numMul env (numDiv env (toNumber env (getProp box (lit ''xmin''))) (numLit env 1000)) width;
               y = numMul env (numDiv env (toNumber env (getProp box (lit ''ymin''))) (numLit env 1000)) height;
               w = numMul env
                     (numDiv env (numSub env (toNumber env (getProp box (lit ''xmax'')))
                                             (toNumber env (getProp box (lit ''xmin''))))
                                 (numLit env 1000)) width;
               h = numMul env
                     (numDiv env (numSub env (toNumber env (getProp box (lit ''ymax'')))
                                             (toNumber env (getProp box (lit ''ymin''))))
                                 (numLit env 1000)) height;
               padding = numLit env 20;
               cw = numAdd env w (numMul env padding (numLit env 2));
               ch = numAdd env h (numMul env padding (numLit env 2))
           in if \<not> getContext env cw ch
              then Inl (Thrown (Some (lit ''Could not get canvas context'')))
              else
                (let fillStyle = lit ''#FFFFFF'';
                     cv = \<lparr>canvasWidth = cw, canvasHeight = ch,
                           drawn = [FillRect fillStyle (numLit env 0) (numLit env 0)
                                      (readDim env cw) (readDim env ch),
                                    DrawImage base64Data x y w h padding padding w h]\<rparr>
                 in Inr \<lparr>data = toDataURL env cv (lit ''image/jpeg'') (numLit env (95 / 100)),
                         mimeType = lit ''image/jpeg''\<rparr>)))"

record crops =
  sideCrop :: "ImageData option"
  topCrop :: "ImageData option"

definition detectRequest :: "ImageData \<Rightarrow> request" where
  "detectRequest imageData =
     \<lparr>model = FLASH_MODEL,
      parts = [inlineData imageData,
               TextPart (lit ''Identify the bounding boxes [0-1000] for the '' @ sq @
                 lit ''Side Profile View'' @ sq @ lit '' and the '' @ sq @
                 lit ''Overhead/Top Deck View'' @ sq @ lit '' of the ship in this schematic.'')],
      systemInstruction = None,
      thinkingBudget = None,
      temperature = None,
      responseSchema = True\<rparr>"

text \<open>
  One of the two guarded crops: \<^verbatim>\<open>if (result.f && result.b) c = await cropImage(d, result.b)\<close>.
  \<open>Inr None\<close>: the guard was false.
\<close>

definition cropView ::
  "'n env \<Rightarrow> ImageData \<Rightarrow> 'n json \<Rightarrow> jsstring \<Rightarrow> jsstring \<Rightarrow> jserror + ImageData option" where
  "cropView env imageData result found box =
     (case getProp result box of
        None \<Rightarrow> Inr None
      | Some b \<Rightarrow>
          if truthy env (getProp result found) \<and> truthy env (Some b)
          then (case cropImage env (data imageData) b of
                  Inl e \<Rightarrow> Inl e
                | Inr img \<Rightarrow> Inr (Some img))
          else Inr None)"

text \<open>The request sent to the detector and how the returned promise settles.\<close>

definition detectAndCropViews :: "'n env \<Rightarrow> ImageData \<Rightarrow> request \<times> (jserror + crops)" where
  "detectAndCropViews env imageData =
     (let req = detectRequest imageData in
      (req,
       case generateContent env Detect req of
         Inl e \<Rightarrow> Inl e
       | Inr text \<Rightarrow>
           (case jsonParse env (orElse text (lit ''{}'')) of
              Inl e \<Rightarrow> Inl e
            | Inr result \<Rightarrow>
                if result = JNull then Inl (typeError env)
                else
                  (case cropView env imageData result (lit ''sideViewFound'') (lit ''sideViewBox'') of
                     Inl e \<Rightarrow> Inl e
                   | Inr s \<Rightarrow>
                       (case cropView env imageData result (lit ''topViewFound'') (lit ''topViewBox'') of
                          Inl e \<Rightarrow> Inl e
                        | Inr t \<Rightarrow> Inr \<lparr>sideCrop = s, topCrop = t\<rparr>)))))"

subsection \<open>Generation pipeline\<close>

text \<open>
  \<open>extractSvg(response.text)\<close> at its call sites: the text of a response can be undefined,
  and then \<^verbatim>\<open>text.match\<close> throws.
\<close>

definition extractSvgOf :: "'n env \<Rightarrow> jsstring option \<Rightarrow> jserror + jsstring" where
  "extractSvgOf env text =
     (case text of None \<Rightarrow> Inl (typeError env) | Some t \<Rightarrow> Inr (extractSvg t))"

text \<open>
  The stage functions take the client \<open>ai\<close> as the source does: here the answer of the
  client to the one request the stage sends. Each returns that request and how its
  promise settles.
\<close>

type_synonym client = "request \<Rightarrow> jserror + jsstring option"

definition contextInstruction :: "ViewType \<Rightarrow> jsstring" where
  "contextInstruction view =
     (if view = Side
      then lit ''FOCUS: Side Profile. Pay attention to mast heights, funnel rakes, '' @
           lit ''hull sheer lines, and freeboard.''
      else lit ''FOCUS: Top/Overhead Deck Plan. Pay attention to beam width, '' @
           lit ''turret rotation circles, deck planking patterns, and lifeboats.'')"

definition systemPrompt :: "ViewType \<Rightarrow> jsstring" where
  "systemPrompt view =
     nl @ lit ''    You are the Lead Naval Architect. Your goal is to recons'' @
     lit ''truct technical drawings into semantic SVG schematics.'' @ nl @ lit ''    '' @
     contextInstruction view @
     nl @ lit ''    '' @ nl @ lit ''    CORE DIRECTIVES:'' @ nl @
     lit ''    1. **Semantic Grouping**: Use <g> tags with descriptive '' @
     lit ''IDs (e.g., <g id='' @ dq @ lit ''hull'' @ dq @ lit ''>, <g id='' @ dq @
     lit ''superstructure'' @ dq @ lit ''>).'' @ nl @ lit ''    2. **Geometric Logic**: '' @
     dq @ lit ''Hallucinate'' @ dq @
     lit '' the perfect engineering geometry behind the fuzzy pixels.'' @ nl @
     lit ''    3. **Viewport**: Ensure the viewBox perfectly frames the'' @ lit '' ship.'' @
     nl @ lit ''    4. **Style**: Use stroke='' @ dq @ lit ''black'' @ dq @ lit '' fill='' @
     dq @ lit ''none'' @ dq @ lit '' stroke-width='' @ dq @ lit ''1'' @ dq @
     lit '' vector-effect='' @ dq @ lit ''non-scaling-stroke'' @ dq @ lit ''.'' @ nl @
     lit ''  ''"

definition generateDraft ::
  "'n env \<Rightarrow> client \<Rightarrow> jsstring \<Rightarrow> ImageData \<Rightarrow> ViewType \<Rightarrow> request \<times> (jserror + jsstring)" where
  "generateDraft env ai prompt' imageData view =
     (let req = \<lparr>model = PRO_MODEL,
                 parts = [inlineData imageData,
                          TextPart (lit ''Reconstruct this '' @ viewTypeName view @
                                    lit '' view. '' @ prompt')],
                 systemInstruction = Some (systemPrompt view),
                 thinkingBudget = Some 16000,
                 temperature = Some (2 / 10),
                 responseSchema = False\<rparr>
      in (req, case ai req of Inl e \<Rightarrow> Inl e | Inr text \<Rightarrow> extractSvgOf env text))"

definition auditDraft :: "client \<Rightarrow> ImageData \<Rightarrow> jsstring \<Rightarrow> request \<times> (jserror + jsstring)" where
  "auditDraft ai originalImage' draftSvg =
     (let req = \<lparr>model = FLASH_MODEL,
                 parts = [inlineData originalImage',
                          TextPart (lit ''SOURCE_IMAGE: (Attached)'' @ nl @ nl @
                                    lit ''VECTOR_DRAFT_CODE:'' @ nl @ take 50000 draftSvg @
                                    lit ''... '' @ nl @ nl @
                                    lit ''Conduct a technical audit. List missing features or distortions.'')],
                 systemInstruction =
                   Some (lit ''You are the Inspector General. Find flaws in the vector conversion.''),
                 thinkingBudget = Some 4000,
                 temperature = None,
                 responseSchema = False\<rparr>
      in (req, case ai req of
                 Inl e \<Rightarrow> Inl e
               | Inr text \<Rightarrow> Inr (orElse text (lit ''No major issues found.''))))"

definition healDraft ::
  "'n env \<Rightarrow> client \<Rightarrow> ImageData \<Rightarrow> jsstring \<Rightarrow> jsstring \<Rightarrow> request \<times> (jserror + jsstring)" where
  "healDraft env ai originalImage' draftSvg auditReport' =
     (let req = \<lparr>model = PRO_MODEL,
                 parts = [inlineData originalImage',
                          TextPart (lit ''DRAFT_SVG:'' @ nl @ draftSvg @ nl @ nl @
                                    lit ''INSPECTOR_AUDIT_REPORT:'' @ nl @ auditReport' @ nl @ nl @
                                    lit ''Execute the repairs.'')],
                 systemInstruction =
                   Some (lit ''You are the Senior Correction Engineer. Fix the SVG based on '' @
                         lit ''the audit without regression.''),
                 thinkingBudget = Some 24000,
                 temperature = Some (1 / 10),
                 responseSchema = False\<rparr>
      in (req, case ai req of Inl e \<Rightarrow> Inl e | Inr text \<Rightarrow> extractSvgOf env text))"

text \<open>
  What a run of the pipeline does that its caller can see: it invokes the status callback
  and it sends requests.
\<close>

datatype pevent = Callback jsstring | Call stage request

record PipelineResult =
  resultContent :: jsstring
  resultAuditReport :: jsstring

definition statusTag :: "string \<Rightarrow> ViewType \<Rightarrow> jsstring" where
  "statusTag s view = lit s @ toUpperCase (viewTypeName view)"

text \<open>
  \<open>runViewPipeline\<close> runs in segments: the first when it is called, up to its first
  \<^verbatim>\<open>await\<close>, each later one when the response awaited arrives. The result is the list of
  the segments run, each the events it makes in order, and how the promise settles once
  the response to the last request is there.
\<close>

definition runViewPipeline ::
  "'n env \<Rightarrow> jsstring \<Rightarrow> ImageData \<Rightarrow> ViewType \<Rightarrow> pevent list list \<times> (jserror + PipelineResult)" where
  "runViewPipeline env prompt' imageData view =
     (let ai = (\<lambda>st. generateContent env (Stage view st));
          d = generateDraft env (ai Draft) prompt' imageData view;
          seg0 = [Callback (statusTag ''DRAFTING_'' view), Call Draft (fst d)]
      in case snd d of
           Inl e \<Rightarrow> ([seg0], Inl e)
         | Inr draft \<Rightarrow>
             (let a = auditDraft (ai Audit) imageData draft;
                  seg1 = [Callback (statusTag ''AUDITING_'' view), Call Audit (fst a)]
              in case snd a of
                   Inl e \<Rightarrow> ([seg0, seg1], Inl e)
                 | Inr audit \<Rightarrow>
                     (let h = healDraft env (ai Heal) imageData draft audit;
                          seg2 = [Callback (statusTag ''HEALING_'' view), Call Heal (fst h)]
                      in case snd h of
                           Inl e \<Rightarrow> ([seg0, seg1, seg2], Inl e)
                         | Inr healed \<Rightarrow>
                             ([seg0, seg1, seg2],
                              Inr \<lparr>resultContent = healed, resultAuditReport = audit\<rparr>))))"

text \<open>Decimal digits of a number, for \<^verbatim>\<open>${iteration}\<close>.\<close>

fun showNat :: "nat \<Rightarrow> jsstring" where
  "showNat n = (if n < 10 then [48 + of_nat n] else showNat (n div 10) @ [48 + of_nat (n mod 10)])"

text \<open>
  \<open>generateWarshipSvg\<close>; the caller passes \<open>1\<close> for the defaulted \<open>iteration\<close>. An image or
  previous SVG that is undefined, and a previous SVG that is the empty string, add no part.
\<close>

definition generateWarshipSvg ::
  "'n env \<Rightarrow> jsstring \<Rightarrow> ImageData option \<Rightarrow> jsstring option \<Rightarrow> nat \<Rightarrow> request \<times> (jserror + jsstring)" where
  "generateWarshipSvg env prompt' imageData previousSvg iteration =
     (let req = \<lparr>model = PRO_MODEL,
                 parts = (case imageData of None \<Rightarrow> [] | Some i \<Rightarrow> [inlineData i]) @
                         (case previousSvg of
                            None \<Rightarrow> []
                          | Some p \<Rightarrow> if p = [] then []
                                      else [TextPart (lit ''CURRENT_SVG_STATE:'' @ nl @ p)]) @
                         [TextPart (lit ''User Instruction: '' @ prompt')],
                 systemInstruction =
                   Some (lit ''Refine this SVG. Iteration '' @ showNat iteration @ lit ''.''),
                 thinkingBudget = Some 20000,
                 temperature = None,
                 responseSchema = False\<rparr>
      in (req, case generateContent env Refine req of
                 Inl e \<Rightarrow> Inl e
               | Inr text \<Rightarrow> extractSvgOf env text))"

section \<open>The application\<close>

text \<open>The state of the component, and what a handler does to it and to the world.\<close>

record app =
  status :: GenerationStatus
  project :: "WarshipProject option"
  activeView :: ViewType
  error :: "ApiError option"
  pipelineStatus :: jsstring

datatype event =
    SetStatus GenerationStatus
  | SetPipelineStatus jsstring
  | SetError "ApiError option"
  | SetProject "WarshipProject option"
  | SetActiveView ViewType
  | UpdateView bool GeneratedSvg
  | Request callsite request
  | ConsoleError jserror

text \<open>
  \<open>UpdateView side v\<close> is the functional update of the refinement handler,
  \<^verbatim>\<open>setProject(prev => prev ? {...prev, [side ? 'sideView' : 'topView']: v} : null)\<close>.
\<close>

fun applyEvent :: "app \<Rightarrow> event \<Rightarrow> app" where
  "applyEvent s (SetStatus x) = s\<lparr>status := x\<rparr>"
| "applyEvent s (SetPipelineStatus x) = s\<lparr>pipelineStatus := x\<rparr>"
| "applyEvent s (SetError x) = s\<lparr>error := x\<rparr>"
| "applyEvent s (SetProject x) = s\<lparr>project := x\<rparr>"
| "applyEvent s (SetActiveView x) = s\<lparr>activeView := x\<rparr>"
| "applyEvent s (UpdateView side v) =
     s\<lparr>project :=
         (case project s of
            None \<Rightarrow> None
          | Some prev \<Rightarrow> Some (if side then prev\<lparr>sideView := Some v\<rparr> else prev\<lparr>topView := Some v\<rparr>))\<rparr>"
| "applyEvent s (Request c r) = s"
| "applyEvent s (ConsoleError e) = s"

definition initialApp :: app where
  "initialApp = \<lparr>status = IDLE, project = None, activeView = Side, error = None, pipelineStatus = []\<rparr>"

subsection \<open>Pipelines in flight\<close>

text \<open>
  A pipeline that has been called and is waiting for a response: the segments it has
  still to run and how it settles after them.
\<close>

record task =
  taskView :: ViewType
  pending :: "pevent list list"
  outcome :: "jserror + PipelineResult"

datatype jevent = Emit ViewType pevent | Settled ViewType "jserror + PipelineResult"

text \<open>Calling \<open>runViewPipeline\<close>: the events of its first segment and the task left waiting.\<close>

definition launch :: "'n env \<Rightarrow> jsstring \<Rightarrow> ImageData \<Rightarrow> ViewType \<Rightarrow> pevent list \<times> task" where
  "launch env prompt' imageData view =
     (let r = runViewPipeline env prompt' imageData view in
      case fst r of
        [] \<Rightarrow> ([], \<lparr>taskView = view, pending = [], outcome = snd r\<rparr>)
      | seg0 # rest \<Rightarrow> (seg0, \<lparr>taskView = view, pending = rest, outcome = snd r\<rparr>))"

text \<open>The response a task waits for arrives: it runs its next segment, or settles.\<close>

definition advance :: "task \<Rightarrow> jevent list \<times> task option" where
  "advance t =
     (case pending t of
        [] \<Rightarrow> ([Settled (taskView t) (outcome t)], None)
      | seg # rest \<Rightarrow> (map (Emit (taskView t)) seg, Some (t\<lparr>pending := rest\<rparr>)))"

definition weight :: "task option \<Rightarrow> nat" where
  "weight t = (case t of None \<Rightarrow> 0 | Some x \<Rightarrow> Suc (length (pending x)))"

definition sideFirst :: "bool list \<Rightarrow> bool" where
  "sideFirst sched = (case sched of [] \<Rightarrow> True | b # _ \<Rightarrow> b)"

text \<open>
  The two pipelines run concurrently on the event loop: responses arrive one at a time,
  in an order the program does not control, and the code between two \<^verbatim>\<open>await\<close>s runs
  without interruption. The schedule says, each time both tasks wait, whose response
  arrives first (the side view's on \<open>True\<close> and when the schedule is used up). The result
  is everything both tasks do until both have settled.
\<close>

function interleave :: "bool list \<Rightarrow> task option \<Rightarrow> task option \<Rightarrow> jevent list" where
  "interleave sched None None = []"
| "interleave sched (Some a) None = fst (advance a) @ interleave sched (snd (advance a)) None"
| "interleave sched None (Some b) = fst (advance b) @ interleave sched None (snd (advance b))"
| "interleave sched (Some a) (Some b) =
     (if sideFirst sched
      then fst (advance a) @ interleave (tl sched) (snd (advance a)) (Some b)
      else fst (advance b) @ interleave (tl sched) (Some a) (snd (advance b)))"
  by pat_completeness auto
termination
  by (relation "measure (\<lambda>(sched, a, b). weight a + weight b)")
     (auto simp: weight_def advance_def split: list.splits)

subsection \<open>The generation handler\<close>

text \<open>The status callback passed to a pipeline sets the pipeline status; requests go out.\<close>

fun pipelineEvent :: "ViewType \<Rightarrow> pevent \<Rightarrow> event" where
  "pipelineEvent v (Callback s) = SetPipelineStatus s"
| "pipelineEvent v (Call st r) = Request (Stage v st) r"

text \<open>The \<^verbatim>\<open>catch\<close> block followed by the \<^verbatim>\<open>finally\<close> block.\<close>

definition onFailure :: "jserror \<Rightarrow> event list" where
  "onFailure e =
     [ConsoleError e, SetStatus ERROR,
      SetError (Some \<lparr>message = lit ''Pipeline Failure'', details = errMessage e\<rparr>),
      SetPipelineStatus []]"

text \<open>The code after \<^verbatim>\<open>await Promise.all(promises)\<close>, followed by the \<^verbatim>\<open>finally\<close> block.\<close>

definition onSuccess :: "WarshipProject \<Rightarrow> event list" where
  "onSuccess p =
     [SetProject (Some p), SetActiveView (if sideView p \<noteq> None then Side else Top),
      SetStatus SUCCESS, SetPipelineStatus []]"

text \<open>
  The view a \<^verbatim>\<open>then\<close> callback stores; \<open>k\<close> pipelines have resolved before, so this is call
  \<open>k + 1\<close> of \<^verbatim>\<open>randomUUID\<close> (call 0 made the project id) and call \<open>k\<close> of \<^verbatim>\<open>Date.now\<close>.
\<close>

definition newSvg :: "'n env \<Rightarrow> jsstring \<Rightarrow> PipelineResult \<Rightarrow> ViewType \<Rightarrow> nat \<Rightarrow> GeneratedSvg" where
  "newSvg env prompt' res view k =
     \<lparr>svgId = Some (randomUUID env (Suc k)), content = resultContent res, prompt = prompt',
      timestamp = dateNow env k, auditReport = Some (resultAuditReport res),
      viewType = Some view\<rparr>"

text \<open>
  The handler while the pipelines run: the object \<^verbatim>\<open>newProject\<close> its callbacks fill in,
  the number of pipelines resolved, and whether \<^verbatim>\<open>Promise.all\<close> has settled.
\<close>

record joinState =
  newProject :: WarshipProject
  resolved :: nat
  joined :: bool

text \<open>
  What the handler does as the tasks proceed; \<open>len\<close> is \<^verbatim>\<open>promises.length\<close>. A pipeline that
  resolves runs its \<^verbatim>\<open>then\<close> callback; when all have resolved, \<^verbatim>\<open>Promise.all\<close> resolves and
  the handler continues. The first pipeline that rejects rejects \<^verbatim>\<open>Promise.all\<close>, and the
  handler goes to its \<^verbatim>\<open>catch\<close>; the other pipeline is not cancelled, and its callbacks
  still run.
\<close>

fun react :: "'n env \<Rightarrow> jsstring \<Rightarrow> nat \<Rightarrow> joinState \<Rightarrow> jevent list \<Rightarrow> event list" where
  "react env prompt' len js [] = []"
| "react env prompt' len js (Emit v pe # es) = pipelineEvent v pe # react env prompt' len js es"
| "react env prompt' len js (Settled v (Inl e) # es) =
     (if joined js then [] else onFailure e) @ react env prompt' len (js\<lparr>joined := True\<rparr>) es"
| "react env prompt' len js (Settled v (Inr res) # es) =
     (let svg = newSvg env prompt' res v (resolved js);
          p = (if v = Side then (newProject js)\<lparr>sideView := Some svg\<rparr>
               else (newProject js)\<lparr>topView := Some svg\<rparr>);
          n = Suc (resolved js);
          fin = (\<not> joined js \<and> n = len)
      in (if fin then onSuccess p else []) @
         react env prompt' len \<lparr>newProject = p, resolved = n, joined = (joined js \<or> fin)\<rparr> es)"

text \<open>\<^verbatim>\<open>imageData || project?.originalImage\<close>\<close>

definition imageToProcess :: "app \<Rightarrow> ImageData option \<Rightarrow> ImageData option" where
  "imageToProcess s imageData =
     (case imageData of Some i \<Rightarrow> Some i | None \<Rightarrow> map_option originalImage (project s))"

definition noViews :: jserror where
  "noViews = Thrown (Some (lit ''Could not identify distinct views in the schematic.''))"

text \<open>
  Everything a call of \<open>handleGenerate\<close> does, in order, in the component state \<open>s\<close> and
  under the schedule \<open>sched\<close> of the responses, until nothing it started is left running.
\<close>

definition handleGenerateEvents ::
  "'n env \<Rightarrow> bool list \<Rightarrow> app \<Rightarrow> jsstring \<Rightarrow> ImageData option \<Rightarrow> event list" where
  "handleGenerateEvents env sched s prompt' imageData =
     [SetStatus SEGMENTING, SetPipelineStatus (lit ''SCANNING_LAYOUT''), SetError None] @
     (case imageToProcess s imageData of
        None \<Rightarrow> []
      | Some img \<Rightarrow>
          (let d = detectAndCropViews env img in
           Request Detect (fst d) #
           (case snd d of
              Inl e \<Rightarrow> onFailure e
            | Inr cr \<Rightarrow>
                (let np = \<lparr>projectId = randomUUID env 0, sideView = None, topView = None,
                           originalImage = img\<rparr>;
                     sideL = map_option (\<lambda>c. launch env prompt' c Side) (sideCrop cr);
                     topL = map_option (\<lambda>c. launch env prompt' c Top) (topCrop cr);
                     started = (case sideL of None \<Rightarrow> [] | Some l \<Rightarrow> map (pipelineEvent Side) (fst l)) @
                               (case topL of None \<Rightarrow> [] | Some l \<Rightarrow> map (pipelineEvent Top) (fst l));
                     len = (case sideL of None \<Rightarrow> 0 | Some _ \<Rightarrow> 1) +
                             (case topL of None \<Rightarrow> 0 | Some _ \<Rightarrow> (1::nat))
                 in SetStatus LOADING # started @
                    (if len = 0 then onFailure noViews
                     else react env prompt' len \<lparr>newProject = np, resolved = 0, joined = False\<rparr>
                            (interleave sched (map_option snd sideL) (map_option snd topL)))))))"

definition handleGenerate ::
  "'n env \<Rightarrow> bool list \<Rightarrow> app \<Rightarrow> jsstring \<Rightarrow> ImageData option \<Rightarrow> app" where
  "handleGenerate env sched s prompt' imageData =
     foldl applyEvent s (handleGenerateEvents env sched s prompt' imageData)"

subsection \<open>The refinement handler\<close>

definition handleRefineEvents :: "'n env \<Rightarrow> app \<Rightarrow> jsstring \<Rightarrow> event list" where
  "handleRefineEvents env s prompt' =
     (case project s of
        None \<Rightarrow> []
      | Some p \<Rightarrow>
          [SetStatus LOADING, SetPipelineStatus (lit ''REFINING_ACTIVE_VIEW'')] @
          (let currentSvg = (if activeView s = Side then sideView p else topView p);
               g = generateWarshipSvg env prompt' None (map_option content currentSvg) 1
           in Request Refine (fst g) #
              (case snd g of
                 Inl e \<Rightarrow>
                   [SetStatus ERROR,
                    SetError (Some \<lparr>message = lit ''Refinement Failed'', details = errMessage e\<rparr>)]
               | Inr refinedContent \<Rightarrow>
                   (let updatedSvg =
                          (case currentSvg of
                             Some c \<Rightarrow> c\<lparr>content := refinedContent, prompt := prompt',
                                         timestamp := dateNow env 0\<rparr>
                           | None \<Rightarrow> \<lparr>svgId = None, content = refinedContent, prompt = prompt',
                                      timestamp = dateNow env 0, auditReport = None,
                                      viewType = None\<rparr>)
                    in [UpdateView (activeView s = Side) updatedSvg, SetStatus SUCCESS]))))"

definition handleRefine :: "'n env \<Rightarrow> app \<Rightarrow> jsstring \<Rightarrow> app" where
  "handleRefine env s prompt' = foldl applyEvent s (handleRefineEvents env s prompt')"

text \<open>The view on display, as the component computes it for rendering.\<close>

definition currentSvg :: "app \<Rightarrow> GeneratedSvg option" where
  "currentSvg s =
     (case project s of
        None \<Rightarrow> None
      | Some p \<Rightarrow> if activeView s = Side then sideView p else topView p)"

section \<open>Notions used in the statements\<close>

text \<open>A run of a pipeline on its own: all its segments, one after the other.\<close>

definition pipelineTrace :: "'n env \<Rightarrow> jsstring \<Rightarrow> ImageData \<Rightarrow> ViewType \<Rightarrow> pevent list" where
  "pipelineTrace env prompt' imageData view = concat (fst (runViewPipeline env prompt' imageData view))"

text \<open>The arguments of the successive invocations of the status callback.\<close>

fun callbacks :: "pevent list \<Rightarrow> jsstring list" where
  "callbacks [] = []"
| "callbacks (Callback s # es) = s # callbacks es"
| "callbacks (Call st r # es) = callbacks es"

text \<open>The mime type of the image a request carries as its first part.\<close>

definition imageMime :: "request \<Rightarrow> jsstring option" where
  "imageMime r = (case parts r of InlineData d m # _ \<Rightarrow> Some m | _ \<Rightarrow> None)"

text \<open>
  The box scaled to the image, as the specification words it: the offset \<open>lo / 1000 * size\<close>
  and the extent \<open>(hi - lo) / 1000 * size\<close> along one axis, in the arithmetic of the
  environment, the fields of the box coerced to numbers.
\<close>

definition scaledOffset :: "'n env \<Rightarrow> 'n json \<Rightarrow> string \<Rightarrow> 'n \<Rightarrow> 'n" where
  "scaledOffset env b lo size' =
     numMul env (numDiv env (toNumber env (getProp b (lit lo))) (numLit env 1000)) size'"

definition scaledExtent :: "'n env \<Rightarrow> 'n json \<Rightarrow> string \<Rightarrow> string \<Rightarrow> 'n \<Rightarrow> 'n" where
  "scaledExtent env b lo hi size' =
     numMul env
       (numDiv env (numSub env (toNumber env (getProp b (lit hi))) (toNumber env (getProp b (lit lo))))
                   (numLit env 1000)) size'"

section \<open>Example worlds\<close>

text \<open>
  A small concrete world, for running the program on examples: the model answers each
  call site as \<open>answer\<close> says, the parser is \<open>parse\<close>, every image loads with natural size
  1000 by 500, numbers are exact rationals, and the encoder returns a fixed URL.
\<close>

definition world ::
  "(callsite \<Rightarrow> jserror + jsstring option) \<Rightarrow> (jsstring \<Rightarrow> jserror + rat json) \<Rightarrow> rat env" where
  "world answer parse =
     \<lparr>generateContent = (\<lambda>c r. answer c),
      jsonParse = parse,
      typeError = Thrown (Some (lit ''TypeError'')),
      loadImage = (\<lambda>u. Inr (1000, 500)),
      getContext = (\<lambda>w h. True),
      readDim = (\<lambda>x. x),
      toDataURL = (\<lambda>cv ty q. lit ''data:image/jpeg;base64,AA''),
      numLit = (\<lambda>q. q),
      toNumber = (\<lambda>v. case v of Some (JNum n) \<Rightarrow> n | _ \<Rightarrow> 0),
      numTruthy = (\<lambda>n. n \<noteq> 0),
      numAdd = (+),
      numSub = (-),
      numMul = (*),
      numDiv = (/),
      randomUUID = (\<lambda>k. lit ''id'' @ showNat k),
      dateNow = (\<lambda>k. 1000 + k)\<rparr>"

text \<open>A detector result with both views, one with the side view only, an upload, and the crop of these worlds.\<close>

definition box :: "rat json" where
  "box = JObj [(lit ''ymin'', JNum 100), (lit ''xmin'', JNum 200),
               (lit ''ymax'', JNum 400), (lit ''xmax'', JNum 800)]"

definition bothViews :: "rat json" where
  "bothViews = JObj [(lit ''sideViewFound'', JBool True), (lit ''sideViewBox'', box),
                     (lit ''topViewFound'', JBool True), (lit ''topViewBox'', box)]"

definition sideOnly :: "rat json" where
  "sideOnly = JObj [(lit ''sideViewFound'', JBool True), (lit ''sideViewBox'', box),
                    (lit ''topViewFound'', JBool False)]"

definition upload :: ImageData where
  "upload = \<lparr>data = lit ''data:image/png;base64,QUJD'', mimeType = lit ''image/png''\<rparr>"

definition jpegCrop :: ImageData where
  "jpegCrop = \<lparr>data = lit ''data:image/jpeg;base64,AA'', mimeType = lit ''image/jpeg''\<rparr>"

text \<open>
  A model that answers every call, with the parsed detector result as argument, and the
  same with one call site out of order.
\<close>

definition answers :: "callsite \<Rightarrow> jserror + jsstring option" where
  "answers c =
     (case c of
        Detect \<Rightarrow> Inr (Some (lit ''{}''))
      | Stage v Audit \<Rightarrow> Inr (Some (lit ''fine''))
      | _ \<Rightarrow> Inr (Some (lit ''<svg></svg>'')))"

definition studio :: "rat json \<Rightarrow> rat env" where
  "studio found = world answers (\<lambda>t. Inr found)"

definition outage :: "callsite \<Rightarrow> rat env" where
  "outage c = world (answers(c := Inl (Thrown (Some (lit ''quota exceeded''))))) (\<lambda>t. Inr bothViews)"

text \<open>
  A model that returns text that is not JSON and one that returns no text, both with a
  parser that knows the empty object only; a model that rejects every call.
\<close>

definition garbled :: "rat env" where
  "garbled = world (\<lambda>c. Inr (Some (lit ''{oops'')))
                   (\<lambda>t. if t = lit ''{}'' then Inr (JObj []) else Inl (Thrown (Some (lit ''SyntaxError''))))"

definition silent :: "rat env" where
  "silent = world (\<lambda>c. Inr None)
                  (\<lambda>t. if t = lit ''{}'' then Inr (JObj []) else Inl (Thrown (Some (lit ''SyntaxError''))))"

definition refusing :: "rat env" where
  "refusing = world (\<lambda>c. Inl (Thrown (Some (lit ''quota exceeded'')))) (\<lambda>t. Inr JNull)"

text \<open>
  A world whose encoder returns the size of the canvas it is given, the same with an image
  that does not load, and the same with a canvas that gives no context.
\<close>

definition darkroom :: "rat env" where
  "darkroom = (world (\<lambda>c. Inr None) (\<lambda>t. Inr JNull))
     \<lparr>toDataURL := (\<lambda>cv ty q. showNat (nat \<lfloor>canvasWidth cv\<rfloor>) @ lit ''x'' @
                                showNat (nat \<lfloor>canvasHeight cv\<rfloor>))\<rparr>"

definition brokenImage :: "rat env" where
  "brokenImage = darkroom\<lparr>loadImage := (\<lambda>u. Inl (Thrown None))\<rparr>"

definition noContext :: "rat env" where
  "noContext = darkroom\<lparr>getContext := (\<lambda>w h. False)\<rparr>"

text \<open>A project with both views, on display the top view, and a model that answers a refinement.\<close>

definition demoSide :: GeneratedSvg where
  "demoSide = \<lparr>svgId = Some (lit ''a1''), content = lit ''<svg>s</svg>'', prompt = lit ''draw'',
                timestamp = 7, auditReport = Some (lit ''mast too short''), viewType = Some Side\<rparr>"

definition demoTop :: GeneratedSvg where
  "demoTop = \<lparr>svgId = Some (lit ''b2''), content = lit ''<svg>t</svg>'', prompt = lit ''draw'',
               timestamp = 8, auditReport = Some (lit ''no lifeboats''), viewType = Some Top\<rparr>"

definition demoApp :: app where
  "demoApp =
     \<lparr>status = SUCCESS,
      project = Some \<lparr>projectId = lit ''p0'', sideView = Some demoSide, topView = Some demoTop,
                      originalImage = upload\<rparr>,
      activeView = Top, error = None, pipelineStatus = []\<rparr>"

definition refiner :: "rat env" where
  "refiner = world (\<lambda>c. Inr (Some (lit ''ok <svg>n</svg>''))) (\<lambda>t. Inr JNull)"

section \<open>Notions used in the proofs\<close>

text \<open>How many pipelines resolve in a run of the tasks, the rejections in order, and the views that resolve.\<close>

fun resolutions :: "jevent list \<Rightarrow> nat" where
  "resolutions [] = 0"
| "resolutions (Settled v (Inr r) # es) = Suc (resolutions es)"
| "resolutions (_ # es) = resolutions es"

fun rejections :: "jevent list \<Rightarrow> jserror list" where
  "rejections [] = []"
| "rejections (Settled v (Inl e) # es) = e # rejections es"
| "rejections (_ # es) = rejections es"

fun resolvedViews :: "jevent list \<Rightarrow> ViewType set" where
  "resolvedViews [] = {}"
| "resolvedViews (Settled v (Inr r) # es) = insert v (resolvedViews es)"
| "resolvedViews (_ # es) = resolvedViews es"

text \<open>
  Of a waiting task: whether it resolves, with what it rejects, the view it resolves, and
  the events of the view \<open>v\<close> it has still to make.
\<close>

definition resolves :: "task option \<Rightarrow> bool" where
  "resolves t = (case t of None \<Rightarrow> False | Some x \<Rightarrow> \<not> isl (outcome x))"

definition rejection :: "task option \<Rightarrow> jserror set" where
  "rejection t = (case t of None \<Rightarrow> {} | Some x \<Rightarrow> (case outcome x of Inl e \<Rightarrow> {e} | Inr _ \<Rightarrow> {}))"

definition resolvedView :: "task option \<Rightarrow> ViewType set" where
  "resolvedView t = (case t of None \<Rightarrow> {} | Some x \<Rightarrow> if isl (outcome x) then {} else {taskView x})"

definition emits :: "ViewType \<Rightarrow> task option \<Rightarrow> pevent set" where
  "emits v t = (case t of None \<Rightarrow> {}
                | Some x \<Rightarrow> if taskView x = v then \<Union> (set ` set (pending x)) else {})"

text \<open>The part of the component state that the events of the pipelines leave alone.\<close>

definition core :: "app \<Rightarrow> GenerationStatus \<times> WarshipProject option \<times> ApiError option \<times> ViewType" where
  "core s = (status s, project s, error s, activeView s)"

text \<open>
  The project object after the \<^verbatim>\<open>then\<close> callback of view \<open>v\<close> has run, and what it means
  that \<open>p\<close> is \<open>np\<close> with the views \<open>vs\<close> filled in.
\<close>

definition assign :: "'n env \<Rightarrow> jsstring \<Rightarrow> joinState \<Rightarrow> ViewType \<Rightarrow> PipelineResult \<Rightarrow> WarshipProject" where
  "assign env prompt' js v res =
     (if v = Side then (newProject js)\<lparr>sideView := Some (newSvg env prompt' res v (resolved js))\<rparr>
      else (newProject js)\<lparr>topView := Some (newSvg env prompt' res v (resolved js))\<rparr>)"

definition populated :: "WarshipProject \<Rightarrow> ViewType set \<Rightarrow> WarshipProject \<Rightarrow> bool" where
  "populated np vs p \<longleftrightarrow>
     projectId p = projectId np \<and> originalImage p = originalImage np
     \<and> (sideView p \<noteq> None \<longleftrightarrow> sideView np \<noteq> None \<or> Side \<in> vs)
     \<and> (topView p \<noteq> None \<longleftrightarrow> topView np \<noteq> None \<or> (\<exists>v \<in> vs. v \<noteq> Side))"

text \<open>
  The events of \<open>handleGenerate\<close> after a successful detection, in two parts: the
  pipelines are called, then they run to the end.
\<close>

definition started :: "'n env \<Rightarrow> jsstring \<Rightarrow> crops \<Rightarrow> event list" where
  "started env prompt' cr =
     (case sideCrop cr of None \<Rightarrow> [] | Some c \<Rightarrow> map (pipelineEvent Side) (fst (launch env prompt' c Side))) @
     (case topCrop cr of None \<Rightarrow> [] | Some c \<Rightarrow> map (pipelineEvent Top) (fst (launch env prompt' c Top)))"

definition waiting :: "'n env \<Rightarrow> jsstring \<Rightarrow> ViewType \<Rightarrow> ImageData option \<Rightarrow> task option" where
  "waiting env prompt' v c = map_option (\<lambda>c. snd (launch env prompt' c v)) c"

definition afterLaunch :: "'n env \<Rightarrow> bool list \<Rightarrow> jsstring \<Rightarrow> ImageData \<Rightarrow> crops \<Rightarrow> event list" where
  "afterLaunch env sched prompt' img cr =
     (if sideCrop cr = None \<and> topCrop cr = None then onFailure noViews
      else react env prompt'
             ((if sideCrop cr = None then 0 else 1) + (if topCrop cr = None then 0 else 1))
             \<lparr>newProject = \<lparr>projectId = randomUUID env 0, sideView = None, topView = None,
                            originalImage = img\<rparr>,
              resolved = 0, joined = False\<rparr>
             (interleave sched (waiting env prompt' Side (sideCrop cr))
                               (waiting env prompt' Top (topCrop cr))))"

section \<open>Extraction of the SVG from a response\<close>

lemma length_svgOpen [simp]: "length svgOpen = 4"
  by (simp add: svgOpen_def lit_def)

lemma length_svgClose [simp]: "length svgClose = 6"
  by (simp add: svgClose_def lit_def)

lemma matchLit_append: "length p \<le> length s \<Longrightarrow> matchLit p (s @ t) = matchLit p s"
  by (induction p s rule: matchLit.induct) auto

lemma matchLit_length: "matchLit p s \<Longrightarrow> length p \<le> length s"
  by (induction p s rule: matchLit.induct) auto

lemma findLit_Some0: "findLit p s = Some 0 \<longleftrightarrow> matchLit p s"
  by (cases s) auto

lemma lazyClose_first:
  assumes "findLit svgClose (body @ cl) = Some (length body)" and "length cl = 6"
  shows "lazyClose (body @ cl @ post) = Some (body @ cl)"
  using assms
proof (induction body)
  case Nil
  then have m: "matchLit svgClose cl" by (simp add: findLit_Some0)
  from Nil obtain c cs where cl: "cl = c # cs" by (cases cl) auto
  have "matchLit svgClose (cl @ post)" using m Nil.prems(2) by (simp add: matchLit_append)
  then show ?case using cl Nil.prems(2) by simp
next
  case (Cons b bs)
  have nm: "\<not> matchLit svgClose (b # bs @ cl)"
    using Cons.prems(1) by (auto split: if_splits)
  then have rest: "findLit svgClose (bs @ cl) = Some (length bs)"
    using Cons.prems(1) by (auto split: if_splits)
  have "length svgClose \<le> length (b # bs @ cl)" using Cons.prems(2) by simp
  then have "matchLit svgClose ((b # bs @ cl) @ post) = matchLit svgClose (b # bs @ cl)"
    by (rule matchLit_append)
  then have "\<not> matchLit svgClose (b # bs @ cl @ post)" using nm by simp
  then show ?case using Cons.IH[OF rest Cons.prems(2)] by simp
qed

lemma svgMatch_first:
  assumes "findLit svgOpen (pre @ op) = Some (length pre)" and "length op = 4"
    and "lazyClose rest = Some m"
  shows "svgMatch (pre @ op @ rest) = Some (op @ m)"
  using assms
proof (induction pre)
  case Nil
  then have m: "matchLit svgOpen op" by (simp add: findLit_Some0)
  from Nil obtain c cs where op: "op = c # cs" by (cases op) auto
  have "matchLit svgOpen (op @ rest)" using m Nil.prems(2) by (simp add: matchLit_append)
  then show ?case using op Nil.prems by simp
next
  case (Cons b bs)
  have nm: "\<not> matchLit svgOpen (b # bs @ op)"
    using Cons.prems(1) by (auto split: if_splits)
  then have rest: "findLit svgOpen (bs @ op) = Some (length bs)"
    using Cons.prems(1) by (auto split: if_splits)
  have "length svgOpen \<le> length (b # bs @ op)" using Cons.prems(2) by simp
  then have "matchLit svgOpen ((b # bs @ op) @ rest) = matchLit svgOpen (b # bs @ op)"
    by (rule matchLit_append)
  then have "\<not> matchLit svgOpen (b # bs @ op @ rest)" using nm by simp
  then show ?case using Cons.IH[OF rest Cons.prems(2) Cons.prems(3)] by simp
qed

lemma extractSvg_element:
  assumes "length op = 4" and "length cl = 6"
    and "findLit svgOpen (pre @ op) = Some (length pre)"
    and "findLit svgClose (body @ cl) = Some (length body)"
  shows "extractSvg (pre @ op @ body @ cl @ post) = op @ body @ cl"
  using svgMatch_first[OF assms(3) assms(1) lazyClose_first[OF assms(4) assms(2)], of post]
  by (simp add: extractSvg_def)

lemma lazyClose_shape:
  "lazyClose s = Some m \<Longrightarrow> prefix m s \<and> (\<exists>b c. m = b @ c \<and> length c = 6 \<and> matchLit svgClose c)"
proof (induction s arbitrary: m)
  case Nil
  then show ?case by (simp add: svgClose_def lit_def)
next
  case (Cons a s)
  show ?case
  proof (cases "matchLit svgClose (a # s)")
    case True
    then have m: "m = take 6 (a # s)" using Cons.prems by simp
    have len: "6 \<le> length (a # s)" using matchLit_length[OF True] by simp
    have "matchLit svgClose (take 6 (a # s) @ drop 6 (a # s))" using True by simp
    then have "matchLit svgClose (take 6 (a # s))"
      using len by (subst (asm) matchLit_append) auto
    moreover have "prefix (take 6 (a # s)) (a # s)" by (rule take_is_prefix)
    moreover have "length (take 6 (a # s)) = 6" using len by simp
    ultimately show ?thesis unfolding m by (intro conjI exI[of _ "[]"] exI[of _ "take 6 (a # s)"]) auto
  next
    case False
    then obtain m' where m': "lazyClose s = Some m'" "m = a # m'"
      using Cons.prems by auto
    from Cons.IH[OF m'(1)] obtain b c where
      "prefix m' s" "m' = b @ c" "length c = 6" "matchLit svgClose c" by blast
    then show ?thesis unfolding m'(2)
      by (intro conjI exI[of _ "a # b"] exI[of _ c]) auto
  qed
qed

lemma svgMatch_shape:
  "svgMatch s = Some m \<Longrightarrow>
     sublist m s \<and> (\<exists>op b cl. m = op @ b @ cl \<and> length op = 4 \<and> matchLit svgOpen op
        \<and> length cl = 6 \<and> matchLit svgClose cl)"
proof (induction s)
  case Nil
  then show ?case by simp
next
  case (Cons a s)
  let ?t = "a # s"
  show ?case
  proof (cases "matchLit svgOpen ?t \<and> lazyClose (drop 4 ?t) \<noteq> None")
    case True
    then obtain r where r: "lazyClose (drop 4 ?t) = Some r" by auto
    then have m: "m = take 4 ?t @ r" using Cons.prems True by simp
    from lazyClose_shape[OF r] obtain b c where
      p: "prefix r (drop 4 ?t)" and bc: "r = b @ c" "length c = 6" "matchLit svgClose c" by blast
    have len: "4 \<le> length ?t" using matchLit_length[of svgOpen ?t] True by simp
    have "matchLit svgOpen (take 4 ?t @ drop 4 ?t)" using True by simp
    then have o: "matchLit svgOpen (take 4 ?t)"
      using len by (subst (asm) matchLit_append) auto
    from p obtain z where "drop 4 ?t = r @ z" by (auto simp: prefix_def)
    then have "?t = take 4 ?t @ r @ z" by (metis append_take_drop_id)
    then have "prefix m ?t" unfolding m by (metis append.assoc prefixI)
    then have "sublist m ?t" by (rule prefix_imp_sublist)
    moreover have "length (take 4 ?t) = 4" using len by simp
    ultimately show ?thesis using o bc unfolding m
      by (intro conjI exI[of _ "take 4 ?t"] exI[of _ b] exI[of _ c]) auto
  next
    case False
    then have "svgMatch s = Some m" using Cons.prems by (auto split: option.splits if_splits)
    from Cons.IH[OF this] show ?thesis by (auto intro: sublist_Cons_right[THEN iffD2])
  qed
qed

lemma svgMatch_no_open: "findLit svgOpen s = None \<Longrightarrow> svgMatch s = None"
  by (induction s) (auto split: if_splits)

subsection \<open>The fallback\<close>

lemma fence_eq: "fence = [96, 96, 96]"
  by (simp add: fence_def lit_def)

lemma replaceFences_no_double:
  "\<not> prefix [96, 96] cs \<Longrightarrow> \<not> prefix [96, 96] (replaceFences cs)"
proof (cases cs)
  case Nil
  then show ?thesis by simp
next
  case (Cons x ys)
  assume np: "\<not> prefix [96, 96] cs"
  show ?thesis
  proof (cases "x = 96")
    case False
    then show ?thesis using Cons by (simp add: startsWith_def fence_eq)
  next
    case True
    show ?thesis
    proof (cases ys)
      case Nil
      then show ?thesis using Cons True by (simp add: startsWith_def fence_eq)
    next
      case (Cons y zs)
      then have "y \<noteq> 96" using np True \<open>cs = x # ys\<close> by auto
      then show ?thesis using Cons True \<open>cs = x # ys\<close>
        by (simp add: startsWith_def fence_eq)
    qed
  qed
qed

lemma replaceFences_no_fence: "\<not> sublist fence (replaceFences s)"
proof (induction s rule: replaceFences.induct)
  case 1
  then show ?case by (simp add: fence_eq)
next
  case (2 c cs)
  show ?case
  proof (cases "startsWith (c # cs) fence")
    case True
    then show ?thesis using 2 by (simp add: Let_def)
  next
    case False
    then have ih: "\<not> sublist fence (replaceFences cs)" using 2 by simp
    have "\<not> prefix fence (c # replaceFences cs)"
    proof
      assume p: "prefix fence (c # replaceFences cs)"
      then have c: "c = 96" and d: "prefix [96, 96] (replaceFences cs)"
        by (auto simp: fence_eq)
      have "\<not> prefix [96, 96] cs"
        using False c by (auto simp: startsWith_def fence_eq prefix_def)
      from replaceFences_no_double[OF this] d show False by simp
    qed
    then show ?thesis using ih False by (simp add: sublist_Cons_right)
  qed
qed

lemma trim_sublist: "sublist (trim s) s"
proof -
  have a: "suffix (dropWhile isWhiteSpace s) s" by (rule suffix_dropWhile)
  have "suffix (dropWhile isWhiteSpace (rev (dropWhile isWhiteSpace s))) (rev (dropWhile isWhiteSpace s))"
    by (rule suffix_dropWhile)
  then have "prefix (trim s) (dropWhile isWhiteSpace s)"
    unfolding trim_def by (simp add: suffix_to_prefix)
  then show ?thesis using a
    by (meson prefix_imp_sublist suffix_imp_sublist sublist_order.order_trans)
qed

lemma trim_ends:
  "trim s = [] \<or> (\<not> isWhiteSpace (hd (trim s)) \<and> \<not> isWhiteSpace (last (trim s)))"
proof (cases "trim s = []")
  case True
  then show ?thesis by simp
next
  case False
  let ?a = "dropWhile isWhiteSpace s"
  let ?b = "dropWhile isWhiteSpace (rev ?a)"
  have b: "?b \<noteq> []" using False by (simp add: trim_def)
  then have hb: "\<not> isWhiteSpace (hd ?b)" by (rule hd_dropWhile)
  have l: "last (trim s) = hd ?b" using b by (simp add: trim_def last_rev)
  have a: "?a \<noteq> []" using b by (cases ?a) auto
  then have ha: "\<not> isWhiteSpace (hd ?a)" by (rule hd_dropWhile)
  have "suffix ?b (rev ?a)" by (rule suffix_dropWhile)
  then have "prefix (rev ?b) ?a" by (simp add: suffix_to_prefix)
  then obtain zs where "?a = rev ?b @ zs" by (auto simp: prefix_def)
  moreover have "rev ?b \<noteq> []" using b by simp
  ultimately have "hd (rev ?b) = hd ?a" by (metis hd_append2)
  then show ?thesis using ha hb l by (simp add: trim_def)
qed

lemma extractSvg_fallback:
  assumes "svgMatch text = None"
  shows "extractSvg text = trim (replaceFences text)"
    and "\<not> sublist fence (extractSvg text)"
proof -
  show e: "extractSvg text = trim (replaceFences text)" using assms by (simp add: extractSvg_def)
  show "\<not> sublist fence (extractSvg text)"
    unfolding e using trim_sublist replaceFences_no_fence
    by (meson sublist_order.order_trans)
qed

subsection \<open>The extraction as a whole\<close>

text \<open>
  C1, as the code has it. The pattern finds the first \<^verbatim>\<open><svg\<close> of the text and ends the
  match at the first \<^verbatim>\<open></svg>\<close> after it. So for a text \<open>pre @ op @ body @ cl @ post\<close> in
  which \<open>op\<close> is the first \<^verbatim>\<open><svg\<close> (none begins inside \<open>pre\<close>) and \<open>cl\<close> is the first
  \<^verbatim>\<open></svg>\<close> after it, \<open>extractSvg\<close> returns exactly \<open>op @ body @ cl\<close>, whatever follows. For a
  text without \<^verbatim>\<open><svg\<close> it returns the text with every run of three backticks (and a
  directly following \<^verbatim>\<open>xml\<close> or \<^verbatim>\<open>svg\<close>) removed and white space trimmed at both ends; no
  three backticks in a row are left. In every case the result is either a piece of the
  text from a \<^verbatim>\<open><svg\<close> to a \<^verbatim>\<open></svg>\<close>, or that fallback.
\<close>

theorem extractSvg_spec:
  "(length op = 4 \<and> length cl = 6
      \<and> findLit svgOpen (pre @ op) = Some (length pre)
      \<and> findLit svgClose (body @ cl) = Some (length body)
      \<longrightarrow> extractSvg (pre @ op @ body @ cl @ post) = op @ body @ cl)
   \<and> (findLit svgOpen text = None
      \<longrightarrow> extractSvg text = trim (replaceFences text)
        \<and> \<not> sublist fence (extractSvg text)
        \<and> (extractSvg text = []
           \<or> \<not> isWhiteSpace (hd (extractSvg text)) \<and> \<not> isWhiteSpace (last (extractSvg text))))
   \<and> ((\<exists>m. svgMatch text = Some m \<and> extractSvg text = m \<and> sublist m text
          \<and> (\<exists>op b cl. m = op @ b @ cl \<and> length op = 4 \<and> matchLit svgOpen op
                \<and> length cl = 6 \<and> matchLit svgClose cl))
      \<or> (svgMatch text = None \<and> extractSvg text = trim (replaceFences text)))"
proof -
  have a: "length op = 4 \<and> length cl = 6
      \<and> findLit svgOpen (pre @ op) = Some (length pre)
      \<and> findLit svgClose (body @ cl) = Some (length body)
      \<longrightarrow> extractSvg (pre @ op @ body @ cl @ post) = op @ body @ cl"
    using extractSvg_element by blast
  have b: "findLit svgOpen text = None
      \<longrightarrow> extractSvg text = trim (replaceFences text)
        \<and> \<not> sublist fence (extractSvg text)
        \<and> (extractSvg text = []
           \<or> \<not> isWhiteSpace (hd (extractSvg text)) \<and> \<not> isWhiteSpace (last (extractSvg text)))"
  proof
    assume "findLit svgOpen text = None"
    then have n: "svgMatch text = None" by (rule svgMatch_no_open)
    from extractSvg_fallback[OF n] trim_ends[of "replaceFences text"]
    show "extractSvg text = trim (replaceFences text)
        \<and> \<not> sublist fence (extractSvg text)
        \<and> (extractSvg text = []
           \<or> \<not> isWhiteSpace (hd (extractSvg text)) \<and> \<not> isWhiteSpace (last (extractSvg text)))"
      by simp
  qed
  have c: "(\<exists>m. svgMatch text = Some m \<and> extractSvg text = m \<and> sublist m text
          \<and> (\<exists>op b cl. m = op @ b @ cl \<and> length op = 4 \<and> matchLit svgOpen op
                \<and> length cl = 6 \<and> matchLit svgClose cl))
      \<or> (svgMatch text = None \<and> extractSvg text = trim (replaceFences text))"
  proof (cases "svgMatch text")
    case None
    then show ?thesis by (simp add: extractSvg_def)
  next
    case (Some m)
    then have "extractSvg text = m" by (simp add: extractSvg_def)
    then show ?thesis using Some svgMatch_shape[OF Some] by blast
  qed
  from a b c show ?thesis by blast
qed

text \<open>
  The claim as it was stated does not hold: commentary that mentions \<^verbatim>\<open><svg\<close> before the
  element is returned with it, and a nested element is cut at the inner closing tag.
\<close>

theorem extractSvg_commentary_counterexample:
  "extractSvg (lit ''Use <svg> tags: '' @ lit ''<svg></svg>'') = lit ''<svg> tags: <svg></svg>''
   \<and> extractSvg (lit ''Use <svg> tags: '' @ lit ''<svg></svg>'') \<noteq> lit ''<svg></svg>''
   \<and> extractSvg (lit ''<svg><svg></svg></svg>'') = lit ''<svg><svg></svg>''"
  by (simp add: extractSvg_def lit_def svgOpen_def svgClose_def canonicalize_def)

theorem extractSvg_spec_witness:
  "length (lit ''<SVG'') = 4 \<and> length (lit ''</svg>'') = 6
   \<and> findLit svgOpen (lit ''Here you go: '' @ lit ''<SVG'') = Some (length (lit ''Here you go: ''))
   \<and> findLit svgClose (lit '' id=1>'' @ lit ''</svg>'') = Some (length (lit '' id=1>''))
   \<and> extractSvg (lit ''Here you go: '' @ lit ''<SVG'' @ lit '' id=1>'' @ lit ''</svg>'' @ lit '' </svg> bye'')
       = lit ''<SVG id=1></svg>''
   \<and> findLit svgOpen (lit '' ```xml hull``` '') = None
   \<and> extractSvg (lit '' ```xml hull``` '') = lit ''hull''"
proof -
  have h: "length (lit ''<SVG'') = 4" "length (lit ''</svg>'') = 6"
    "findLit svgOpen (lit ''Here you go: '' @ lit ''<SVG'') = Some (length (lit ''Here you go: ''))"
    "findLit svgClose (lit '' id=1>'' @ lit ''</svg>'') = Some (length (lit '' id=1>''))"
    "findLit svgOpen (lit '' ```xml hull``` '') = None"
    by (simp_all add: lit_def svgOpen_def svgClose_def canonicalize_def)
  have t: "trim (replaceFences (lit '' ```xml hull``` '')) = lit ''hull''"
    by (simp add: lit_def trim_def fence_def startsWith_def isWhiteSpace_def)
  have j: "lit ''<SVG'' @ lit '' id=1>'' @ lit ''</svg>'' = lit ''<SVG id=1></svg>''"
    by (simp add: lit_def)
  show ?thesis
    using h t j
      extractSvg_spec [of "lit ''<SVG''" "lit ''</svg>''" "lit ''Here you go: ''" "lit '' id=1>''"
        "lit '' </svg> bye''" "lit '' ```xml hull``` ''"]
    by simp
qed

section \<open>Running the example worlds\<close>

lemma world_generateContent [simp]: "generateContent (world a p) c r = a c"
  by (simp add: world_def)

lemma runViewPipeline_outcome:
  "snd (runViewPipeline env prompt' img v) =
     (case snd (generateDraft env (generateContent env (Stage v Draft)) prompt' img v) of
        Inl e \<Rightarrow> Inl e
      | Inr draft \<Rightarrow>
          (case snd (auditDraft (generateContent env (Stage v Audit)) img draft) of
             Inl e \<Rightarrow> Inl e
           | Inr audit \<Rightarrow>
               (case snd (healDraft env (generateContent env (Stage v Heal)) img draft audit) of
                  Inl e \<Rightarrow> Inl e
                | Inr healed \<Rightarrow> Inr \<lparr>resultContent = healed, resultAuditReport = audit\<rparr>)))"
  by (simp add: runViewPipeline_def Let_def split: sum.splits)

lemma world_draft:
  "snd (generateDraft (world a p) (generateContent (world a p) c) prompt' img v) =
     (case a c of Inl e \<Rightarrow> Inl e | Inr t \<Rightarrow> extractSvgOf (world a p) t)"
  by (simp add: generateDraft_def Let_def)

lemma world_audit:
  "snd (auditDraft (generateContent (world a p) c) img d) =
     (case a c of Inl e \<Rightarrow> Inl e | Inr t \<Rightarrow> Inr (orElse t (lit ''No major issues found.'')))"
  by (simp add: auditDraft_def Let_def)

lemma world_heal:
  "snd (healDraft (world a p) (generateContent (world a p) c) img d r) =
     (case a c of Inl e \<Rightarrow> Inl e | Inr t \<Rightarrow> extractSvgOf (world a p) t)"
  by (simp add: healDraft_def Let_def)

lemma extract_empty_svg: "extractSvgOf env (Some (lit ''<svg></svg>'')) = Inr (lit ''<svg></svg>'')"
  by (simp add: extractSvgOf_def extractSvg_def lit_def svgOpen_def svgClose_def canonicalize_def)

lemma orElse_fine: "orElse (Some (lit ''fine'')) d = lit ''fine''"
  by (simp add: orElse_def lit_def)

lemma studio_pipeline:
  "snd (runViewPipeline (studio found) prompt' img v) =
     Inr \<lparr>resultContent = lit ''<svg></svg>'', resultAuditReport = lit ''fine''\<rparr>"
  by (simp add: runViewPipeline_outcome studio_def world_draft world_audit world_heal answers_def
      extract_empty_svg orElse_fine)

lemma outage_side:
  "snd (runViewPipeline (outage (Stage Top Audit)) prompt' img Side) =
     Inr \<lparr>resultContent = lit ''<svg></svg>'', resultAuditReport = lit ''fine''\<rparr>"
  by (simp add: runViewPipeline_outcome outage_def world_draft world_audit world_heal answers_def
      extract_empty_svg orElse_fine)

lemma outage_top:
  "snd (runViewPipeline (outage (Stage Top Audit)) prompt' img Top) =
     Inl (Thrown (Some (lit ''quota exceeded'')))"
  by (simp add: runViewPipeline_outcome outage_def world_draft world_audit world_heal answers_def
      extract_empty_svg orElse_fine)

lemma world_crop: "cropImage (world a p) d b = Inr jpegCrop"
  by (simp add: cropImage_def world_def jpegCrop_def Let_def)

lemma world_detect_both:
  "snd (detectAndCropViews (world a (\<lambda>t. Inr bothViews)) upload) =
     (case a Detect of Inl e \<Rightarrow> Inl e
      | Inr t \<Rightarrow> Inr \<lparr>sideCrop = Some jpegCrop, topCrop = Some jpegCrop\<rparr>)"
proof -
  have p: "jsonParse (world a (\<lambda>t. Inr bothViews)) x = Inr bothViews" for x
    by (simp add: world_def)
  have k: "getProp bothViews (lit ''sideViewFound'') = Some (JBool True)"
    "getProp bothViews (lit ''sideViewBox'') = Some box"
    "getProp bothViews (lit ''topViewFound'') = Some (JBool True)"
    "getProp bothViews (lit ''topViewBox'') = Some box"
    by (simp_all add: bothViews_def lit_def)
  have t: "truthy env (Some box)" for env :: "rat env" by (simp add: box_def)
  have n: "bothViews \<noteq> JNull" by (simp add: bothViews_def)
  have g: "generateContent (world a (\<lambda>t. Inr bothViews)) Detect r = a Detect" for r
    by (simp add: world_def)
  show ?thesis
    by (simp add: detectAndCropViews_def Let_def p g n cropView_def k t world_crop split: sum.splits)
qed

lemma world_detect_sideOnly:
  "snd (detectAndCropViews (world a (\<lambda>t. Inr sideOnly)) upload) =
     (case a Detect of Inl e \<Rightarrow> Inl e
      | Inr t \<Rightarrow> Inr \<lparr>sideCrop = Some jpegCrop, topCrop = None\<rparr>)"
proof -
  have p: "jsonParse (world a (\<lambda>t. Inr sideOnly)) x = Inr sideOnly" for x
    by (simp add: world_def)
  have k: "getProp sideOnly (lit ''sideViewFound'') = Some (JBool True)"
    "getProp sideOnly (lit ''sideViewBox'') = Some box"
    "getProp sideOnly (lit ''topViewFound'') = Some (JBool False)"
    "getProp sideOnly (lit ''topViewBox'') = None"
    by (simp_all add: sideOnly_def lit_def)
  have t: "truthy env (Some box)" for env :: "rat env" by (simp add: box_def)
  have n: "sideOnly \<noteq> JNull" by (simp add: sideOnly_def)
  have g: "generateContent (world a (\<lambda>t. Inr sideOnly)) Detect r = a Detect" for r
    by (simp add: world_def)
  show ?thesis
    by (simp add: detectAndCropViews_def Let_def p g n cropView_def k t world_crop split: sum.splits)
qed

lemma world_detect_none:
  "snd (detectAndCropViews (world a (\<lambda>t. Inr (JObj []))) upload) =
     (case a Detect of Inl e \<Rightarrow> Inl e | Inr t \<Rightarrow> Inr \<lparr>sideCrop = None, topCrop = None\<rparr>)"
  by (simp add: detectAndCropViews_def Let_def world_def cropView_def split: sum.splits)

section \<open>Properties of the cropper\<close>

lemma darkroom_fields:
  "loadImage darkroom u = Inr (1000, 500)"
  "getContext darkroom w h"
  "numMul darkroom x y = x * y" "numDiv darkroom x y = x / y"
  "numAdd darkroom x y = x + y" "numSub darkroom x y = x - y"
  "numLit darkroom q = q" "readDim darkroom x = x"
  "toNumber darkroom (Some (JNum n)) = n"
  "toDataURL darkroom cv ty q' =
     showNat (nat \<lfloor>canvasWidth cv\<rfloor>) @ lit ''x'' @ showNat (nat \<lfloor>canvasHeight cv\<rfloor>)"
  by (simp_all add: darkroom_def world_def)

lemma box_fields:
  "getProp box (lit ''xmin'') = Some (JNum 200)" "getProp box (lit ''xmax'') = Some (JNum 800)"
  "getProp box (lit ''ymin'') = Some (JNum 100)" "getProp box (lit ''ymax'') = Some (JNum 400)"
  by (simp_all add: box_def lit_def)

lemma showNat_640: "showNat 640 = lit ''640''" "showNat 190 = lit ''190''"
  by (simp_all add: lit_def)



section \<open>Properties of the detector\<close>

text \<open>
  C3, as the code has it. When \<^verbatim>\<open>JSON.parse\<close> throws on the text of the response,
  \<open>detectAndCropViews\<close> rejects with that error. Only an undefined or empty text is
  replaced by \<^verbatim>\<open>{}\<close>, and a parsed object without the two boxes gives a record with
  neither a side nor a top crop.
\<close>

theorem detectAndCropViews_parse:
  "(generateContent env Detect (detectRequest img) = Inr text
      \<and> jsonParse env (orElse text (lit ''{}'')) = Inl e
      \<longrightarrow> snd (detectAndCropViews env img) = Inl e)
   \<and> (generateContent env Detect (detectRequest img) = Inr text
      \<and> (text = None \<or> text = Some []) \<and> jsonParse env (lit ''{}'') = Inr (JObj [])
      \<longrightarrow> snd (detectAndCropViews env img) = Inr \<lparr>sideCrop = None, topCrop = None\<rparr>)
   \<and> (generateContent env Detect (detectRequest img) = Inr text
      \<and> jsonParse env (orElse text (lit ''{}'')) = Inr (JObj kvs)
      \<and> map_of kvs (lit ''sideViewBox'') = None \<and> map_of kvs (lit ''topViewBox'') = None
      \<longrightarrow> snd (detectAndCropViews env img) = Inr \<lparr>sideCrop = None, topCrop = None\<rparr>)"
  by (auto simp: detectAndCropViews_def Let_def orElse_def cropView_def)

text \<open>
  The claim as it was stated does not hold: a response that is not JSON makes the function
  fail.
\<close>

theorem detectAndCropViews_malformed_counterexample:
  "snd (detectAndCropViews garbled upload) = Inl (Thrown (Some (lit ''SyntaxError'')))
   \<and> snd (detectAndCropViews garbled upload) \<noteq> Inr \<lparr>sideCrop = None, topCrop = None\<rparr>"
  by (simp add: detectAndCropViews_def garbled_def world_def orElse_def lit_def)

theorem detectAndCropViews_parse_witness:
  "generateContent garbled Detect (detectRequest upload) = Inr (Some (lit ''{oops''))
   \<and> jsonParse garbled (orElse (Some (lit ''{oops'')) (lit ''{}'')) = Inl (Thrown (Some (lit ''SyntaxError'')))
   \<and> snd (detectAndCropViews garbled upload) = Inl (Thrown (Some (lit ''SyntaxError'')))
   \<and> generateContent silent Detect (detectRequest upload) = Inr None
   \<and> jsonParse silent (lit ''{}'') = Inr (JObj [])
   \<and> jsonParse silent (orElse None (lit ''{}'')) = Inr (JObj [])
   \<and> map_of ([] :: (jsstring \<times> rat json) list) (lit ''sideViewBox'') = None
   \<and> snd (detectAndCropViews silent upload) = Inr \<lparr>sideCrop = None, topCrop = None\<rparr>"
proof -
  have g1: "generateContent garbled Detect (detectRequest upload) = Inr (Some (lit ''{oops''))"
    by (simp add: garbled_def world_def)
  have g2: "jsonParse garbled (orElse (Some (lit ''{oops'')) (lit ''{}'')) = Inl (Thrown (Some (lit ''SyntaxError'')))"
    by (simp add: garbled_def world_def orElse_def lit_def)
  have s1: "generateContent silent Detect (detectRequest upload) = Inr None"
    by (simp add: silent_def world_def)
  have s2: "jsonParse silent (lit ''{}'') = Inr (JObj [])"
    by (simp add: silent_def world_def)
  have s3: "jsonParse silent (orElse None (lit ''{}'')) = Inr (JObj [])"
    by (simp add: silent_def world_def orElse_def)
  show ?thesis
    using g1 g2 s1 s2 s3
      detectAndCropViews_parse [of garbled upload "Some (lit ''{oops'')" "Thrown (Some (lit ''SyntaxError''))" "[]"]
      detectAndCropViews_parse [of silent upload None "Thrown None" "[]"]
    by simp
qed

section \<open>Properties of the pipeline of one view\<close>

lemma upper_names:
  "toUpperCase (viewTypeName v) =
     (case v of Side \<Rightarrow> lit ''SIDE'' | Top \<Rightarrow> lit ''TOP''
      | Isometric \<Rightarrow> lit ''ISOMETRIC'' | Unknown \<Rightarrow> lit ''UNKNOWN'')"
  by (cases v) (simp_all add: toUpperCase_def lit_def canonicalize_def)

lemma lit_append: "lit a @ lit b = lit (a @ b)"
  by (simp add: lit_def)

text \<open>
  C8, as the code has it. In a run in which the draft and the audit stage resolve, the
  status callback is invoked exactly three times, with DRAFTING, AUDITING and HEALING
  followed by the upper-case name of the view, each time just before the request of that
  stage; the callbacks and the three requests are all the run does. A stage that rejects
  ends the run: the callback has then been invoked twice (audit) or once (draft).
\<close>

theorem runViewPipeline_trace:
  "(snd (generateDraft env (generateContent env (Stage v Draft)) prompt' img v) = Inr draft
    \<and> snd (auditDraft (generateContent env (Stage v Audit)) img draft) = Inr audit
    \<longrightarrow> pipelineTrace env prompt' img v =
          [Callback (lit ''DRAFTING_'' @ toUpperCase (viewTypeName v)),
           Call Draft (fst (generateDraft env (generateContent env (Stage v Draft)) prompt' img v)),
           Callback (lit ''AUDITING_'' @ toUpperCase (viewTypeName v)),
           Call Audit (fst (auditDraft (generateContent env (Stage v Audit)) img draft)),
           Callback (lit ''HEALING_'' @ toUpperCase (viewTypeName v)),
           Call Heal (fst (healDraft env (generateContent env (Stage v Heal)) img draft audit))]
      \<and> callbacks (pipelineTrace env prompt' img v) =
          [lit ''DRAFTING_'' @ toUpperCase (viewTypeName v),
           lit ''AUDITING_'' @ toUpperCase (viewTypeName v),
           lit ''HEALING_'' @ toUpperCase (viewTypeName v)])
   \<and> (snd (generateDraft env (generateContent env (Stage v Draft)) prompt' img v) = Inr draft
    \<and> snd (auditDraft (generateContent env (Stage v Audit)) img draft) = Inl e
    \<longrightarrow> callbacks (pipelineTrace env prompt' img v) =
          [lit ''DRAFTING_'' @ toUpperCase (viewTypeName v),
           lit ''AUDITING_'' @ toUpperCase (viewTypeName v)])
   \<and> (snd (generateDraft env (generateContent env (Stage v Draft)) prompt' img v) = Inl e
    \<longrightarrow> callbacks (pipelineTrace env prompt' img v) =
          [lit ''DRAFTING_'' @ toUpperCase (viewTypeName v)])
   \<and> toUpperCase (viewTypeName v) =
       (case v of Side \<Rightarrow> lit ''SIDE'' | Top \<Rightarrow> lit ''TOP''
        | Isometric \<Rightarrow> lit ''ISOMETRIC'' | Unknown \<Rightarrow> lit ''UNKNOWN'')"
proof -
  have a: "snd (generateDraft env (generateContent env (Stage v Draft)) prompt' img v) = Inr draft
    \<and> snd (auditDraft (generateContent env (Stage v Audit)) img draft) = Inr audit
    \<longrightarrow> pipelineTrace env prompt' img v =
          [Callback (lit ''DRAFTING_'' @ toUpperCase (viewTypeName v)),
           Call Draft (fst (generateDraft env (generateContent env (Stage v Draft)) prompt' img v)),
           Callback (lit ''AUDITING_'' @ toUpperCase (viewTypeName v)),
           Call Audit (fst (auditDraft (generateContent env (Stage v Audit)) img draft)),
           Callback (lit ''HEALING_'' @ toUpperCase (viewTypeName v)),
           Call Heal (fst (healDraft env (generateContent env (Stage v Heal)) img draft audit))]"
    by (simp add: pipelineTrace_def runViewPipeline_def Let_def statusTag_def split: sum.splits)
  have b: "snd (generateDraft env (generateContent env (Stage v Draft)) prompt' img v) = Inr draft
    \<and> snd (auditDraft (generateContent env (Stage v Audit)) img draft) = Inl e
    \<longrightarrow> callbacks (pipelineTrace env prompt' img v) =
          [lit ''DRAFTING_'' @ toUpperCase (viewTypeName v),
           lit ''AUDITING_'' @ toUpperCase (viewTypeName v)]"
    by (simp add: pipelineTrace_def runViewPipeline_def Let_def statusTag_def)
  have c: "snd (generateDraft env (generateContent env (Stage v Draft)) prompt' img v) = Inl e
    \<longrightarrow> callbacks (pipelineTrace env prompt' img v) =
          [lit ''DRAFTING_'' @ toUpperCase (viewTypeName v)]"
    by (simp add: pipelineTrace_def runViewPipeline_def Let_def statusTag_def)
  from a b c upper_names show ?thesis by simp
qed

text \<open>
  The claim as it was stated does not hold for every run: when the draft request is
  rejected, the callback has been invoked once.
\<close>

theorem runViewPipeline_callbacks_counterexample:
  "callbacks (pipelineTrace refusing (lit ''go'') upload Side) = [lit ''DRAFTING_SIDE'']
   \<and> length (callbacks (pipelineTrace refusing (lit ''go'') upload Side)) \<noteq> 3"
  by (simp add: pipelineTrace_def runViewPipeline_def generateDraft_def refusing_def world_def
      statusTag_def toUpperCase_def canonicalize_def Let_def lit_def)

theorem runViewPipeline_trace_witness:
  "snd (generateDraft (studio bothViews) (generateContent (studio bothViews) (Stage Side Draft))
          (lit ''go'') jpegCrop Side) = Inr (lit ''<svg></svg>'')
   \<and> snd (auditDraft (generateContent (studio bothViews) (Stage Side Audit)) jpegCrop (lit ''<svg></svg>''))
       = Inr (lit ''fine'')
   \<and> callbacks (pipelineTrace (studio bothViews) (lit ''go'') jpegCrop Side) =
       [lit ''DRAFTING_SIDE'', lit ''AUDITING_SIDE'', lit ''HEALING_SIDE'']
   \<and> snd (generateDraft (outage (Stage Top Audit)) (generateContent (outage (Stage Top Audit)) (Stage Top Draft))
          (lit ''go'') jpegCrop Top) = Inr (lit ''<svg></svg>'')
   \<and> snd (auditDraft (generateContent (outage (Stage Top Audit)) (Stage Top Audit)) jpegCrop (lit ''<svg></svg>''))
       = Inl (Thrown (Some (lit ''quota exceeded'')))
   \<and> callbacks (pipelineTrace (outage (Stage Top Audit)) (lit ''go'') jpegCrop Top) =
       [lit ''DRAFTING_TOP'', lit ''AUDITING_TOP'']
   \<and> snd (generateDraft (outage (Stage Side Draft)) (generateContent (outage (Stage Side Draft)) (Stage Side Draft))
          (lit ''go'') jpegCrop Side) = Inl (Thrown (Some (lit ''quota exceeded'')))
   \<and> callbacks (pipelineTrace (outage (Stage Side Draft)) (lit ''go'') jpegCrop Side) = [lit ''DRAFTING_SIDE'']"
proof -
  have a1: "snd (generateDraft (studio bothViews) (generateContent (studio bothViews) (Stage Side Draft))
          (lit ''go'') jpegCrop Side) = Inr (lit ''<svg></svg>'')"
    by (simp add: studio_def world_draft answers_def extract_empty_svg)
  have a2: "snd (auditDraft (generateContent (studio bothViews) (Stage Side Audit)) jpegCrop (lit ''<svg></svg>''))
       = Inr (lit ''fine'')"
    by (simp add: studio_def world_audit answers_def orElse_fine)
  have b1: "snd (generateDraft (outage (Stage Top Audit)) (generateContent (outage (Stage Top Audit)) (Stage Top Draft))
          (lit ''go'') jpegCrop Top) = Inr (lit ''<svg></svg>'')"
    by (simp add: outage_def world_draft answers_def extract_empty_svg)
  have b2: "snd (auditDraft (generateContent (outage (Stage Top Audit)) (Stage Top Audit)) jpegCrop (lit ''<svg></svg>''))
       = Inl (Thrown (Some (lit ''quota exceeded'')))"
    by (simp add: outage_def world_audit)
  have c1: "snd (generateDraft (outage (Stage Side Draft)) (generateContent (outage (Stage Side Draft)) (Stage Side Draft))
          (lit ''go'') jpegCrop Side) = Inl (Thrown (Some (lit ''quota exceeded'')))"
    by (simp add: outage_def world_draft)
  show ?thesis
    using a1 a2 b1 b2 c1
      runViewPipeline_trace [of "studio bothViews" Side "lit ''go''" jpegCrop "lit ''<svg></svg>''" "lit ''fine''"]
      runViewPipeline_trace [of "outage (Stage Top Audit)" Top "lit ''go''" jpegCrop "lit ''<svg></svg>''" _
         "Thrown (Some (lit ''quota exceeded''))"]
      runViewPipeline_trace [of "outage (Stage Side Draft)" Side "lit ''go''" jpegCrop _ _
         "Thrown (Some (lit ''quota exceeded''))"]
    by (simp add: lit_append)
qed

section \<open>Pipelines running concurrently\<close>

lemma core_pipelineEvent [simp]: "core (applyEvent s (pipelineEvent v pe)) = core s"
  by (cases pe) (simp_all add: core_def)

lemma core_pipelineEvents [simp]: "core (foldl applyEvent s (map (pipelineEvent v) seg)) = core s"
  by (induction seg arbitrary: s) simp_all

lemma resolutions_append [simp]: "resolutions (xs @ ys) = resolutions xs + resolutions ys"
  by (induction xs rule: resolutions.induct) simp_all

lemma rejections_append [simp]: "rejections (xs @ ys) = rejections xs @ rejections ys"
  by (induction xs rule: rejections.induct) simp_all

lemma resolvedViews_append [simp]: "resolvedViews (xs @ ys) = resolvedViews xs \<union> resolvedViews ys"
  by (induction xs rule: resolvedViews.induct) simp_all

lemma resolutions_Emit [simp]: "resolutions (map (Emit v) seg) = 0"
  by (induction seg) simp_all

lemma rejections_Emit [simp]: "rejections (map (Emit v) seg) = []"
  by (induction seg) simp_all

lemma resolvedViews_Emit [simp]: "resolvedViews (map (Emit v) seg) = {}"
  by (induction seg) simp_all

lemma resolvedViews_none: "resolutions L = 0 \<Longrightarrow> resolvedViews L = {}"
  by (induction L rule: resolutions.induct) simp_all

subsection \<open>Every schedule settles each task once\<close>

lemma interleave_resolutions:
  "resolutions (interleave sched a b) = (if resolves a then 1 else 0) + (if resolves b then 1 else 0)"
proof (induction sched a b rule: interleave.induct)
  case (1 sched)
  then show ?case by (simp add: resolves_def)
next
  case (2 sched a)
  then show ?case
    by (cases "pending a"; cases "outcome a") (simp_all add: advance_def resolves_def)
next
  case (3 sched b)
  then show ?case
    by (cases "pending b"; cases "outcome b") (simp_all add: advance_def resolves_def)
next
  case (4 sched a b)
  then show ?case
    by (cases "sideFirst sched"; cases "pending a"; cases "outcome a"; cases "pending b"; cases "outcome b")
       (simp_all add: advance_def resolves_def)
qed

lemma interleave_rejections:
  "set (rejections (interleave sched a b)) = rejection a \<union> rejection b"
proof (induction sched a b rule: interleave.induct)
  case (1 sched)
  then show ?case by (simp add: rejection_def)
next
  case (2 sched a)
  then show ?case
    by (cases "pending a"; cases "outcome a") (simp_all add: advance_def rejection_def)
next
  case (3 sched b)
  then show ?case
    by (cases "pending b"; cases "outcome b") (simp_all add: advance_def rejection_def)
next
  case (4 sched a b)
  then show ?case
    by (cases "sideFirst sched"; cases "pending a"; cases "outcome a"; cases "pending b"; cases "outcome b")
       (simp_all add: advance_def rejection_def insert_commute)
qed

lemma interleave_resolvedViews:
  "resolvedViews (interleave sched a b) = resolvedView a \<union> resolvedView b"
proof (induction sched a b rule: interleave.induct)
  case (1 sched)
  then show ?case by (simp add: resolvedView_def)
next
  case (2 sched a)
  then show ?case
    by (cases "pending a"; cases "outcome a") (simp_all add: advance_def resolvedView_def)
next
  case (3 sched b)
  then show ?case
    by (cases "pending b"; cases "outcome b") (simp_all add: advance_def resolvedView_def)
next
  case (4 sched a b)
  then show ?case
    by (cases "sideFirst sched"; cases "pending a"; cases "outcome a"; cases "pending b"; cases "outcome b")
       (simp_all add: advance_def resolvedView_def insert_commute)
qed

lemma emits_advance:
  "pending a = seg # rest \<Longrightarrow> emits v (Some (a\<lparr>pending := rest\<rparr>)) \<subseteq> emits v (Some a)"
  by (auto simp: emits_def)

lemma emits_seg:
  "pending a = seg # rest \<Longrightarrow> Emit v pe \<in> set (map (Emit (taskView a)) seg) \<Longrightarrow> pe \<in> emits v (Some a)"
  by (auto simp: emits_def)

lemma advance_emits:
  assumes "Emit v pe \<in> set (fst (advance a))"
  shows "pe \<in> emits v (Some a)"
proof (cases "pending a")
  case Nil
  then show ?thesis using assms by (simp add: advance_def)
next
  case (Cons seg rest)
  then show ?thesis using assms emits_seg[OF Cons] by (simp add: advance_def)
qed

lemma advance_rest_emits: "emits v (snd (advance a)) \<subseteq> emits v (Some a)"
proof (cases "pending a")
  case Nil
  then show ?thesis by (simp add: advance_def emits_def)
next
  case (Cons seg rest)
  then show ?thesis using emits_advance[OF Cons] by (simp add: advance_def)
qed

lemma interleave_emits:
  "Emit v pe \<in> set (interleave sched a b) \<Longrightarrow> pe \<in> emits v a \<union> emits v b"
proof (induction sched a b rule: interleave.induct)
  case (1 sched)
  then show ?case by simp
next
  case (2 sched a)
  then show ?case using advance_emits[of v pe a] advance_rest_emits[of v a] by auto
next
  case (3 sched b)
  then show ?case using advance_emits[of v pe b] advance_rest_emits[of v b] by auto
next
  case (4 sched a b)
  show ?case
  proof (cases "sideFirst sched")
    case True
    then show ?thesis
      using 4 advance_emits[of v pe a] advance_rest_emits[of v a] by auto
  next
    case False
    then show ?thesis
      using 4 advance_emits[of v pe b] advance_rest_emits[of v b] by auto
  qed
qed

subsection \<open>The handler while the tasks run\<close>

lemma core_onFailure:
  "core (foldl applyEvent s (onFailure e)) =
     (ERROR, project s, Some \<lparr>message = lit ''Pipeline Failure'', details = errMessage e\<rparr>, activeView s)"
  by (simp add: onFailure_def core_def)

lemma core_onSuccess:
  "core (foldl applyEvent s (onSuccess p)) =
     (SUCCESS, Some p, error s, if sideView p \<noteq> None then Side else Top)"
  by (simp add: onSuccess_def core_def)

lemma react_Inr:
  "react env prompt' len js (Settled v (Inr res) # es) =
     (if \<not> joined js \<and> Suc (resolved js) = len then onSuccess (assign env prompt' js v res) else []) @
     react env prompt' len
       \<lparr>newProject = assign env prompt' js v res, resolved = Suc (resolved js),
        joined = (joined js \<or> Suc (resolved js) = len)\<rparr> es"
  by (auto simp: Let_def assign_def)

lemma react_joined:
  "joined js \<Longrightarrow> core (foldl applyEvent s (react env prompt' len js L)) = core s"
proof (induction L arbitrary: js s)
  case Nil
  then show ?case by simp
next
  case (Cons x es)
  show ?case
  proof (cases x)
    case (Emit v pe)
    then show ?thesis using Cons by simp
  next
    case (Settled v out)
    show ?thesis
    proof (cases out)
      case (Inl e)
      then show ?thesis using Settled Cons by simp
    next
      case (Inr res)
      then show ?thesis using Settled Cons by (simp add: react_Inr del: react.simps)
    qed
  qed
qed

lemma react_failure:
  "\<not> joined js \<Longrightarrow> resolved js + resolutions L < len \<Longrightarrow> rejections L = e # rest \<Longrightarrow>
   core (foldl applyEvent s (react env prompt' len js L)) =
     (ERROR, project s, Some \<lparr>message = lit ''Pipeline Failure'', details = errMessage e\<rparr>, activeView s)"
proof (induction L arbitrary: js s)
  case Nil
  then show ?case by simp
next
  case (Cons x es)
  show ?case
  proof (cases x)
    case (Emit v pe)
    have "core (foldl applyEvent (applyEvent s (pipelineEvent v pe)) (react env prompt' len js es)) =
            (ERROR, project (applyEvent s (pipelineEvent v pe)),
             Some \<lparr>message = lit ''Pipeline Failure'', details = errMessage e\<rparr>,
             activeView (applyEvent s (pipelineEvent v pe)))"
      using Cons Emit by simp
    moreover have "core (applyEvent s (pipelineEvent v pe)) = core s" by simp
    ultimately show ?thesis using Emit by (simp add: core_def)
  next
    case (Settled v out)
    show ?thesis
    proof (cases out)
      case (Inl e')
      then have e: "e' = e" using Cons.prems(3) Settled by simp
      have "core (foldl applyEvent (foldl applyEvent s (onFailure e))
                    (react env prompt' len (js\<lparr>joined := True\<rparr>) es)) =
            core (foldl applyEvent s (onFailure e))"
        by (rule react_joined) simp
      then show ?thesis using Cons.prems(1) e Inl Settled by (simp add: core_onFailure)
    next
      case (Inr res)
      have lt: "Suc (resolved js) + resolutions es < len" using Cons.prems(2) Settled Inr by simp
      then have ne: "Suc (resolved js) \<noteq> len" by simp
      have "core (foldl applyEvent s
              (react env prompt' len
                 \<lparr>newProject = assign env prompt' js v res, resolved = Suc (resolved js),
                  joined = False\<rparr> es)) =
            (ERROR, project s, Some \<lparr>message = lit ''Pipeline Failure'', details = errMessage e\<rparr>,
             activeView s)"
        using Cons.IH[of "\<lparr>newProject = assign env prompt' js v res, resolved = Suc (resolved js),
                  joined = False\<rparr>" s] Cons.prems(3) lt Settled Inr by simp
      then show ?thesis using Cons.prems(1) ne Settled Inr by (simp add: react_Inr del: react.simps)
    qed
  qed
qed

lemma react_no_SetProject:
  "joined js \<or> resolved js + resolutions L < len \<Longrightarrow> SetProject p \<notin> set (react env prompt' len js L)"
proof (induction L arbitrary: js)
  case Nil
  then show ?case by simp
next
  case (Cons x es)
  show ?case
  proof (cases x)
    case (Emit v pe)
    then show ?thesis using Cons by (cases pe) simp_all
  next
    case (Settled v out)
    show ?thesis
    proof (cases out)
      case (Inl e)
      have "SetProject p \<notin> set (react env prompt' len (js\<lparr>joined := True\<rparr>) es)"
        by (rule Cons.IH) simp
      then show ?thesis using Settled Inl by (simp add: onFailure_def)
    next
      case (Inr res)
      have c: "joined js \<or> Suc (resolved js) + resolutions es < len"
        using Cons.prems Settled Inr by auto
      then have nf: "\<not> (\<not> joined js \<and> Suc (resolved js) = len)" by auto
      have "SetProject p \<notin> set (react env prompt' len
                 \<lparr>newProject = assign env prompt' js v res, resolved = Suc (resolved js),
                  joined = (joined js \<or> Suc (resolved js) = len)\<rparr> es)"
        by (rule Cons.IH) (use c in auto)
      moreover have "SetProject p \<notin> set (if \<not> joined js \<and> Suc (resolved js) = len
                                        then onSuccess (assign env prompt' js v res) else [])"
        using nf by auto
      ultimately show ?thesis using Settled Inr by (simp add: react_Inr del: react.simps)
    qed
  qed
qed

lemma react_requests:
  "Request c r \<in> set (react env prompt' len js L) \<Longrightarrow>
     \<exists>v st. c = Stage v st \<and> Emit v (Call st r) \<in> set L"
proof (induction L arbitrary: js)
  case Nil
  then show ?case by simp
next
  case (Cons x es)
  show ?case
  proof (cases x)
    case (Emit v pe)
    show ?thesis
    proof (cases pe)
      case (Callback t)
      then have "Request c r \<in> set (react env prompt' len js es)" using Cons.prems Emit by simp
      from Cons.IH[OF this] show ?thesis by auto
    next
      case (Call st' r')
      then have "(c = Stage v st' \<and> r = r') \<or> Request c r \<in> set (react env prompt' len js es)"
        using Cons.prems Emit by auto
      then show ?thesis
      proof
        assume "c = Stage v st' \<and> r = r'"
        then show ?thesis using Emit Call by auto
      next
        assume "Request c r \<in> set (react env prompt' len js es)"
        from Cons.IH[OF this] show ?thesis by auto
      qed
    qed
  next
    case (Settled v out)
    show ?thesis
    proof (cases out)
      case (Inl e)
      then show ?thesis using Cons Settled by (auto simp: onFailure_def split: if_splits)
    next
      case (Inr res)
      then show ?thesis using Cons Settled
        by (auto simp: react_Inr onSuccess_def simp del: react.simps split: if_splits)
    qed
  qed
qed

lemma populated_refl: "populated np {} np"
  by (simp add: populated_def)

lemma populated_assign:
  "populated (assign env prompt' js v res) vs p \<Longrightarrow> populated (newProject js) (insert v vs) p"
  by (auto simp: populated_def assign_def split: if_splits)

lemma react_success:
  "\<not> joined js \<Longrightarrow> rejections L = [] \<Longrightarrow> resolved js + resolutions L = len \<Longrightarrow>
   0 < resolutions L \<Longrightarrow>
   \<exists>p. core (foldl applyEvent s (react env prompt' len js L)) =
          (SUCCESS, Some p, error s, if sideView p \<noteq> None then Side else Top)
      \<and> populated (newProject js) (resolvedViews L) p"
proof (induction L arbitrary: js s)
  case Nil
  then show ?case by simp
next
  case (Cons x es)
  show ?case
  proof (cases x)
    case (Emit v pe)
    have "\<exists>p. core (foldl applyEvent (applyEvent s (pipelineEvent v pe)) (react env prompt' len js es)) =
         (SUCCESS, Some p, error (applyEvent s (pipelineEvent v pe)),
          if sideView p \<noteq> None then Side else Top)
       \<and> populated (newProject js) (resolvedViews es) p"
      using Cons.prems Emit by (intro Cons.IH) simp_all
    then obtain p where p:
      "core (foldl applyEvent (applyEvent s (pipelineEvent v pe)) (react env prompt' len js es)) =
         (SUCCESS, Some p, error (applyEvent s (pipelineEvent v pe)),
          if sideView p \<noteq> None then Side else Top)"
      "populated (newProject js) (resolvedViews es) p"
      by blast
    have "error (applyEvent s (pipelineEvent v pe)) = error s"
      using core_pipelineEvent[of s v pe] by (simp add: core_def)
    then show ?thesis using p Emit by (intro exI[of _ p]) simp
  next
    case (Settled v out)
    show ?thesis
    proof (cases out)
      case (Inl e)
      then show ?thesis using Cons.prems(2) Settled by simp
    next
      case (Inr res)
      let ?p = "assign env prompt' js v res"
      let ?js = "\<lparr>newProject = ?p, resolved = Suc (resolved js),
                  joined = (joined js \<or> Suc (resolved js) = len)\<rparr>"
      have sum: "Suc (resolved js) + resolutions es = len" using Cons.prems(3) Settled Inr by simp
      have rej: "rejections es = []" using Cons.prems(2) Settled Inr by simp
      have rv: "resolvedViews (x # es) = insert v (resolvedViews es)" using Settled Inr by simp
      show ?thesis
      proof (cases "resolutions es = 0")
        case True
        then have fin: "Suc (resolved js) = len" using sum by simp
        have rv0: "resolvedViews es = {}" using True by (rule resolvedViews_none)
        have "core (foldl applyEvent (foldl applyEvent s (onSuccess ?p)) (react env prompt' len ?js es)) =
              core (foldl applyEvent s (onSuccess ?p))"
          by (rule react_joined) (simp add: fin)
        then have "core (foldl applyEvent s (react env prompt' len js (x # es))) =
                (SUCCESS, Some ?p, error s, if sideView ?p \<noteq> None then Side else Top)"
          using Cons.prems(1) fin Settled Inr
          by (simp add: react_Inr core_onSuccess del: react.simps)
        moreover have "populated (newProject js) (resolvedViews (x # es)) ?p"
          unfolding rv rv0 by (rule populated_assign) (rule populated_refl)
        ultimately show ?thesis by blast
      next
        case False
        then have ne: "Suc (resolved js) \<noteq> len" using sum by simp
        have nj: "\<not> joined ?js" using Cons.prems(1) ne by simp
        have "\<exists>p. core (foldl applyEvent s (react env prompt' len ?js es)) =
             (SUCCESS, Some p, error s, if sideView p \<noteq> None then Side else Top)
           \<and> populated (newProject ?js) (resolvedViews es) p"
          using nj rej sum False by (intro Cons.IH) simp_all
        then obtain p where p:
          "core (foldl applyEvent s (react env prompt' len ?js es)) =
             (SUCCESS, Some p, error s, if sideView p \<noteq> None then Side else Top)"
          "populated ?p (resolvedViews es) p"
          by auto
        have "core (foldl applyEvent s (react env prompt' len js (x # es))) =
                (SUCCESS, Some p, error s, if sideView p \<noteq> None then Side else Top)"
          using p(1) Cons.prems(1) ne Settled Inr by (simp add: react_Inr del: react.simps)
        moreover have "populated (newProject js) (resolvedViews (x # es)) p"
          unfolding rv using p(2) by (rule populated_assign)
        ultimately show ?thesis by blast
      qed
    qed
  qed
qed

section \<open>Properties of the generation handler\<close>

lemma handleGenerateEvents_unfold:
  assumes "imageToProcess s im = Some img" and "snd (detectAndCropViews env img) = Inr cr"
  shows "handleGenerateEvents env sched s prompt' im =
           [SetStatus SEGMENTING, SetPipelineStatus (lit ''SCANNING_LAYOUT''), SetError None,
            Request Detect (fst (detectAndCropViews env img)), SetStatus LOADING] @
           started env prompt' cr @ afterLaunch env sched prompt' img cr"
  using assms
  by (cases "sideCrop cr"; cases "topCrop cr")
     (simp_all add: handleGenerateEvents_def Let_def started_def afterLaunch_def waiting_def)

lemma core_started [simp]: "core (foldl applyEvent s (started env prompt' cr)) = core s"
  by (cases "sideCrop cr"; cases "topCrop cr") (simp_all add: started_def)

lemma handleGenerate_core:
  assumes "imageToProcess s im = Some img" and "snd (detectAndCropViews env img) = Inr cr"
  shows "\<exists>s1. core s1 = (LOADING, project s, None, activeView s)
            \<and> handleGenerate env sched s prompt' im =
                foldl applyEvent s1 (afterLaunch env sched prompt' img cr)"
proof -
  let ?s0 = "foldl applyEvent s
               [SetStatus SEGMENTING, SetPipelineStatus (lit ''SCANNING_LAYOUT''), SetError None,
                Request Detect (fst (detectAndCropViews env img)), SetStatus LOADING]"
  let ?s1 = "foldl applyEvent ?s0 (started env prompt' cr)"
  have "core ?s0 = (LOADING, project s, None, activeView s)" by (simp add: core_def)
  then have "core ?s1 = (LOADING, project s, None, activeView s)" by simp
  moreover have "handleGenerate env sched s prompt' im =
                   foldl applyEvent ?s1 (afterLaunch env sched prompt' img cr)"
    unfolding handleGenerate_def handleGenerateEvents_unfold[OF assms] by simp
  ultimately show ?thesis by blast
qed

lemma launch_task [simp]:
  "taskView (snd (launch env prompt' c v)) = v"
  "outcome (snd (launch env prompt' c v)) = snd (runViewPipeline env prompt' c v)"
  by (simp_all add: launch_def Let_def split: list.splits)

lemma waiting_resolves:
  "resolves (waiting env prompt' v c) \<longleftrightarrow>
     (\<exists>i. c = Some i \<and> \<not> isl (snd (runViewPipeline env prompt' i v)))"
  by (cases c) (simp_all add: waiting_def resolves_def)

lemma waiting_rejection:
  "rejection (waiting env prompt' v c) =
     {e. \<exists>i. c = Some i \<and> snd (runViewPipeline env prompt' i v) = Inl e}"
  by (cases c) (auto simp: waiting_def rejection_def split: sum.splits)

lemma waiting_resolvedView:
  "resolvedView (waiting env prompt' v c) =
     (if \<exists>i. c = Some i \<and> \<not> isl (snd (runViewPipeline env prompt' i v)) then {v} else {})"
  by (cases c) (simp_all add: waiting_def resolvedView_def)

lemma afterLaunch_failure:
  assumes some: "sideCrop cr \<noteq> None \<or> topCrop cr \<noteq> None"
    and rej: "(\<exists>i e. sideCrop cr = Some i \<and> snd (runViewPipeline env prompt' i Side) = Inl e)
            \<or> (\<exists>i e. topCrop cr = Some i \<and> snd (runViewPipeline env prompt' i Top) = Inl e)"
  shows "\<exists>e. core (foldl applyEvent s (afterLaunch env sched prompt' img cr)) =
               (ERROR, project s, Some \<lparr>message = lit ''Pipeline Failure'', details = errMessage e\<rparr>,
                activeView s)
            \<and> ((\<exists>i. sideCrop cr = Some i \<and> snd (runViewPipeline env prompt' i Side) = Inl e)
               \<or> (\<exists>i. topCrop cr = Some i \<and> snd (runViewPipeline env prompt' i Top) = Inl e))"
    and "SetProject p \<notin> set (afterLaunch env sched prompt' img cr)"
proof -
  let ?a = "waiting env prompt' Side (sideCrop cr)"
  let ?b = "waiting env prompt' Top (topCrop cr)"
  let ?L = "interleave sched ?a ?b"
  let ?len = "(if sideCrop cr = None then 0 else 1) + (if topCrop cr = None then 0 else (1::nat))"
  let ?js = "\<lparr>newProject = \<lparr>projectId = randomUUID env 0, sideView = None, topView = None,
                                originalImage = img\<rparr>,
              resolved = 0, joined = False\<rparr>"
  have al: "afterLaunch env sched prompt' img cr = react env prompt' ?len ?js ?L"
    using some by (auto simp: afterLaunch_def)
  have nonres: "\<not> resolves ?a \<or> \<not> resolves ?b"
    using rej by (auto simp: waiting_resolves)
  have le: "(if resolves ?a then 1 else 0) \<le> (if sideCrop cr = None then 0 else (1::nat))"
           "(if resolves ?b then 1 else 0) \<le> (if topCrop cr = None then 0 else (1::nat))"
    by (auto simp: waiting_resolves)
  have lt: "resolutions ?L < ?len"
  proof -
    have "rejection ?a \<union> rejection ?b \<noteq> {}" using rej by (auto simp: waiting_rejection)
    then have "(\<not> resolves ?a \<and> sideCrop cr \<noteq> None) \<or> (\<not> resolves ?b \<and> topCrop cr \<noteq> None)"
      by (auto simp: waiting_rejection waiting_resolves)
    then show ?thesis
      using le unfolding interleave_resolutions by (auto split: if_splits)
  qed
  have "set (rejections ?L) \<noteq> {}"
    using rej unfolding interleave_rejections by (auto simp: waiting_rejection)
  then obtain e rest where er: "rejections ?L = e # rest" by (cases "rejections ?L") auto
  then have "e \<in> rejection ?a \<union> rejection ?b"
    using interleave_rejections[of sched ?a ?b] by (metis list.set_intros(1))
  then have who: "(\<exists>i. sideCrop cr = Some i \<and> snd (runViewPipeline env prompt' i Side) = Inl e)
               \<or> (\<exists>i. topCrop cr = Some i \<and> snd (runViewPipeline env prompt' i Top) = Inl e)"
    by (auto simp: waiting_rejection)
  have "core (foldl applyEvent s (react env prompt' ?len ?js ?L)) =
          (ERROR, project s, Some \<lparr>message = lit ''Pipeline Failure'', details = errMessage e\<rparr>,
           activeView s)"
    by (rule react_failure[OF _ _ er]) (use lt in simp_all)
  then show "\<exists>e. core (foldl applyEvent s (afterLaunch env sched prompt' img cr)) =
               (ERROR, project s, Some \<lparr>message = lit ''Pipeline Failure'', details = errMessage e\<rparr>,
                activeView s)
            \<and> ((\<exists>i. sideCrop cr = Some i \<and> snd (runViewPipeline env prompt' i Side) = Inl e)
               \<or> (\<exists>i. topCrop cr = Some i \<and> snd (runViewPipeline env prompt' i Top) = Inl e))"
    using who unfolding al by blast
  show "SetProject p \<notin> set (afterLaunch env sched prompt' img cr)"
    unfolding al by (rule react_no_SetProject) (use lt in simp)
qed

lemma afterLaunch_success:
  assumes some: "sideCrop cr \<noteq> None \<or> topCrop cr \<noteq> None"
    and sideOk: "\<forall>i. sideCrop cr = Some i \<longrightarrow> \<not> isl (snd (runViewPipeline env prompt' i Side))"
    and topOk: "\<forall>i. topCrop cr = Some i \<longrightarrow> \<not> isl (snd (runViewPipeline env prompt' i Top))"
  shows "\<exists>p. core (foldl applyEvent s (afterLaunch env sched prompt' img cr)) =
               (SUCCESS, Some p, error s, if sideView p \<noteq> None then Side else Top)
            \<and> (sideView p \<noteq> None \<longleftrightarrow> sideCrop cr \<noteq> None)
            \<and> (topView p \<noteq> None \<longleftrightarrow> topCrop cr \<noteq> None)
            \<and> originalImage p = img \<and> projectId p = randomUUID env 0"
proof -
  let ?a = "waiting env prompt' Side (sideCrop cr)"
  let ?b = "waiting env prompt' Top (topCrop cr)"
  let ?L = "interleave sched ?a ?b"
  let ?len = "(if sideCrop cr = None then 0 else 1) + (if topCrop cr = None then 0 else (1::nat))"
  let ?np = "\<lparr>projectId = randomUUID env 0, sideView = None, topView = None, originalImage = img\<rparr>"
  let ?js = "\<lparr>newProject = ?np, resolved = 0, joined = False\<rparr>"
  have al: "afterLaunch env sched prompt' img cr = react env prompt' ?len ?js ?L"
    using some by (auto simp: afterLaunch_def)
  have ra: "resolves ?a \<longleftrightarrow> sideCrop cr \<noteq> None" using sideOk by (auto simp: waiting_resolves)
  have rb: "resolves ?b \<longleftrightarrow> topCrop cr \<noteq> None" using topOk by (auto simp: waiting_resolves)
  have n: "resolutions ?L = ?len" unfolding interleave_resolutions ra rb by simp
  have pos: "0 < resolutions ?L" unfolding n using some by auto
  have "set (rejections ?L) = {}"
    unfolding interleave_rejections using sideOk topOk by (auto simp: waiting_rejection)
  then have rej: "rejections ?L = []" by simp
  have rv: "resolvedViews ?L = (if sideCrop cr \<noteq> None then {Side} else {}) \<union>
                                (if topCrop cr \<noteq> None then {Top} else {})"
    unfolding interleave_resolvedViews waiting_resolvedView using sideOk topOk by auto
  have "\<exists>p. core (foldl applyEvent s (react env prompt' ?len ?js ?L)) =
             (SUCCESS, Some p, error s, if sideView p \<noteq> None then Side else Top)
           \<and> populated (newProject ?js) (resolvedViews ?L) p"
    by (rule react_success) (use rej n pos in simp_all)
  then obtain p where p:
    "core (foldl applyEvent s (react env prompt' ?len ?js ?L)) =
       (SUCCESS, Some p, error s, if sideView p \<noteq> None then Side else Top)"
    "populated ?np (resolvedViews ?L) p"
    by auto
  have "(sideView p \<noteq> None \<longleftrightarrow> sideCrop cr \<noteq> None) \<and> (topView p \<noteq> None \<longleftrightarrow> topCrop cr \<noteq> None)
        \<and> originalImage p = img \<and> projectId p = randomUUID env 0"
    using p(2) unfolding rv populated_def by (auto split: if_splits)
  then show ?thesis using p(1) unfolding al by blast
qed

lemma afterLaunch_none:
  assumes "sideCrop cr = None" and "topCrop cr = None"
  shows "core (foldl applyEvent s (afterLaunch env sched prompt' img cr)) =
           (ERROR, project s,
            Some \<lparr>message = lit ''Pipeline Failure'',
                  details = Some (lit ''Could not identify distinct views in the schematic.'')\<rparr>,
            activeView s)"
  using assms by (simp add: afterLaunch_def core_onFailure noViews_def)

text \<open>
  C5. When two pipelines have been launched and at least one of them rejects, then under
  every schedule of the responses the join rejects: the handler ends in the status ERROR
  with the error Pipeline Failure and the message of a pipeline that rejected, it never
  sets the project, and the project is what it was, whether or not the other pipeline
  resolved.
\<close>

theorem handleGenerate_all_or_nothing:
  assumes "imageToProcess s im = Some img"
    and "snd (detectAndCropViews env img) = Inr cr"
    and "sideCrop cr = Some cs" and "topCrop cr = Some ct"
    and "isl (snd (runViewPipeline env prompt' cs Side)) \<or> isl (snd (runViewPipeline env prompt' ct Top))"
  shows "status (handleGenerate env sched s prompt' im) = ERROR
       \<and> project (handleGenerate env sched s prompt' im) = project s
       \<and> (\<forall>p. SetProject p \<notin> set (handleGenerateEvents env sched s prompt' im))
       \<and> (\<exists>e. error (handleGenerate env sched s prompt' im) =
                 Some \<lparr>message = lit ''Pipeline Failure'', details = errMessage e\<rparr>
              \<and> (snd (runViewPipeline env prompt' cs Side) = Inl e
                 \<or> snd (runViewPipeline env prompt' ct Top) = Inl e))"
proof -
  from handleGenerate_core[OF assms(1,2), of sched prompt'] obtain s1 where
    s1: "core s1 = (LOADING, project s, None, activeView s)"
    and hg: "handleGenerate env sched s prompt' im =
               foldl applyEvent s1 (afterLaunch env sched prompt' img cr)"
    by blast
  have some: "sideCrop cr \<noteq> None \<or> topCrop cr \<noteq> None" using assms(3) by simp
  have rej: "(\<exists>i e. sideCrop cr = Some i \<and> snd (runViewPipeline env prompt' i Side) = Inl e)
            \<or> (\<exists>i e. topCrop cr = Some i \<and> snd (runViewPipeline env prompt' i Top) = Inl e)"
    using assms(3,4,5) by (auto simp: isl_def)
  from afterLaunch_failure(1)[OF some rej, of s1 sched img] obtain e where
    e: "core (foldl applyEvent s1 (afterLaunch env sched prompt' img cr)) =
          (ERROR, project s1, Some \<lparr>message = lit ''Pipeline Failure'', details = errMessage e\<rparr>,
           activeView s1)"
       "(\<exists>i. sideCrop cr = Some i \<and> snd (runViewPipeline env prompt' i Side) = Inl e)
        \<or> (\<exists>i. topCrop cr = Some i \<and> snd (runViewPipeline env prompt' i Top) = Inl e)"
    by blast
  have np: "\<forall>p. SetProject p \<notin> set (handleGenerateEvents env sched s prompt' im)"
  proof
    fix p
    have "SetProject p \<notin> set (started env prompt' cr)"
      by (auto simp: started_def split: option.splits) (metis event.distinct pipelineEvent.elims)+
    then show "SetProject p \<notin> set (handleGenerateEvents env sched s prompt' im)"
      unfolding handleGenerateEvents_unfold[OF assms(1,2)]
      using afterLaunch_failure(2)[OF some rej, of p sched img] by simp
  qed
  have "status (handleGenerate env sched s prompt' im) = ERROR"
    and "project (handleGenerate env sched s prompt' im) = project s"
    and "error (handleGenerate env sched s prompt' im) =
           Some \<lparr>message = lit ''Pipeline Failure'', details = errMessage e\<rparr>"
    using e(1) s1 unfolding hg by (simp_all add: core_def)
  then show ?thesis using np e(2) assms(3,4) by auto
qed

theorem handleGenerate_all_or_nothing_witness:
  "imageToProcess initialApp (Some upload) = Some upload
   \<and> snd (detectAndCropViews (outage (Stage Top Audit)) upload) =
       Inr \<lparr>sideCrop = Some jpegCrop, topCrop = Some jpegCrop\<rparr>
   \<and> \<not> isl (snd (runViewPipeline (outage (Stage Top Audit)) (lit ''go'') jpegCrop Side))
   \<and> isl (snd (runViewPipeline (outage (Stage Top Audit)) (lit ''go'') jpegCrop Top))
   \<and> status (handleGenerate (outage (Stage Top Audit)) [False, False] initialApp (lit ''go'') (Some upload)) = ERROR
   \<and> project (handleGenerate (outage (Stage Top Audit)) [False, False] initialApp (lit ''go'') (Some upload)) = None
   \<and> error (handleGenerate (outage (Stage Top Audit)) [False, False] initialApp (lit ''go'') (Some upload)) =
       Some \<lparr>message = lit ''Pipeline Failure'', details = Some (lit ''quota exceeded'')\<rparr>"
proof -
  have h1: "imageToProcess initialApp (Some upload) = Some upload"
    by (simp add: imageToProcess_def)
  have h2: "snd (detectAndCropViews (outage (Stage Top Audit)) upload) =
              Inr \<lparr>sideCrop = Some jpegCrop, topCrop = Some jpegCrop\<rparr>"
    by (simp add: outage_def world_detect_both answers_def)
  have h3: "sideCrop \<lparr>sideCrop = Some jpegCrop, topCrop = Some jpegCrop\<rparr> = Some jpegCrop" by simp
  have h4: "topCrop \<lparr>sideCrop = Some jpegCrop, topCrop = Some jpegCrop\<rparr> = Some jpegCrop" by simp
  have s: "\<not> isl (snd (runViewPipeline (outage (Stage Top Audit)) (lit ''go'') jpegCrop Side))"
    by (simp add: outage_side)
  have t: "isl (snd (runViewPipeline (outage (Stage Top Audit)) (lit ''go'') jpegCrop Top))"
    by (simp add: outage_top)
  then have h5: "isl (snd (runViewPipeline (outage (Stage Top Audit)) (lit ''go'') jpegCrop Side))
               \<or> isl (snd (runViewPipeline (outage (Stage Top Audit)) (lit ''go'') jpegCrop Top))"
    by simp
  have p0: "project initialApp = None" by (simp add: initialApp_def)
  show ?thesis
    using h1 h2 s t p0 handleGenerate_all_or_nothing [OF h1 h2 h3 h4 h5, of "[False, False]"]
    by (auto simp: outage_side outage_top)
qed




subsection \<open>The images sent to the pipelines\<close>

lemma cropImage_result:
  assumes "cropImage env d b = Inr img"
  shows "mimeType img = lit ''image/jpeg''"
    and "\<exists>cv. data img = toDataURL env cv (lit ''image/jpeg'') (numLit env (95 / 100))"
  using assms
  by (auto simp: cropImage_def Let_def split: sum.splits prod.splits if_splits)

lemma cropView_mime:
  "cropView env im result f b = Inr (Some c) \<Longrightarrow> mimeType c = lit ''image/jpeg''"
  by (auto simp: cropView_def cropImage_result(1) split: option.splits if_splits sum.splits)

lemma detect_mime:
  assumes "snd (detectAndCropViews env img) = Inr cr"
  shows "(\<forall>c. sideCrop cr = Some c \<longrightarrow> mimeType c = lit ''image/jpeg'')
       \<and> (\<forall>c. topCrop cr = Some c \<longrightarrow> mimeType c = lit ''image/jpeg'')"
  using assms
  by (auto simp: detectAndCropViews_def Let_def cropView_mime split: sum.splits if_splits)

lemma pipeline_calls_mime:
  "Call st r \<in> set (pipelineTrace env prompt' img v) \<Longrightarrow> imageMime r = Some (mimeType img)"
  by (auto simp: pipelineTrace_def runViewPipeline_def Let_def generateDraft_def auditDraft_def
      healDraft_def imageMime_def inlineData_def split: sum.splits)

lemma launch_trace:
  "set (fst (launch env prompt' c v)) \<union> \<Union> (set ` set (pending (snd (launch env prompt' c v))))
     = set (pipelineTrace env prompt' c v)"
  by (auto simp: launch_def Let_def pipelineTrace_def split: list.splits)

lemma launch_first:
  "fst (launch env prompt' c v) =
     [Callback (statusTag ''DRAFTING_'' v),
      Call Draft (fst (generateDraft env (generateContent env (Stage v Draft)) prompt' c v))]"
  by (simp add: launch_def runViewPipeline_def Let_def split: sum.splits)

lemma launched_requests:
  assumes "Request (Stage v st) r \<in> pipelineEvent w ` set (fst (launch env prompt' c w))"
  shows "Call st r \<in> set (pipelineTrace env prompt' c v)"
proof -
  from assms obtain pe where pe: "pe \<in> set (fst (launch env prompt' c w))"
    "Request (Stage v st) r = pipelineEvent w pe"
    by auto
  from pe(2) have "w = v \<and> pe = Call st r" by (cases pe) auto
  then show ?thesis using pe(1) launch_trace[of env prompt' c w] by auto
qed

lemma started_requests:
  assumes "Request (Stage v st) r \<in> set (started env prompt' cr)"
  shows "\<exists>c. (sideCrop cr = Some c \<or> topCrop cr = Some c) \<and> Call st r \<in> set (pipelineTrace env prompt' c v)"
proof -
  have "(\<exists>c. sideCrop cr = Some c
            \<and> Request (Stage v st) r \<in> pipelineEvent Side ` set (fst (launch env prompt' c Side)))
        \<or> (\<exists>c. topCrop cr = Some c
            \<and> Request (Stage v st) r \<in> pipelineEvent Top ` set (fst (launch env prompt' c Top)))"
    using assms by (cases "sideCrop cr"; cases "topCrop cr") (simp_all add: started_def)
  then show ?thesis using launched_requests by blast
qed

lemma waiting_emits:
  assumes "pe \<in> emits v (waiting env prompt' w c)"
  shows "\<exists>i. c = Some i \<and> pe \<in> set (pipelineTrace env prompt' i v)"
proof (cases c)
  case None
  then show ?thesis using assms by (simp add: waiting_def emits_def)
next
  case (Some i)
  then have "w = v" and "pe \<in> \<Union> (set ` set (pending (snd (launch env prompt' i w))))"
    using assms by (auto simp: waiting_def emits_def split: if_splits)
  then have "pe \<in> set (pipelineTrace env prompt' i v)"
    using launch_trace[of env prompt' i w] by auto
  then show ?thesis using Some by simp
qed

lemma afterLaunch_requests:
  assumes "Request (Stage v st) r \<in> set (afterLaunch env sched prompt' img cr)"
  shows "\<exists>c. (sideCrop cr = Some c \<or> topCrop cr = Some c) \<and> Call st r \<in> set (pipelineTrace env prompt' c v)"
proof (cases "sideCrop cr = None \<and> topCrop cr = None")
  case True
  then show ?thesis using assms by (simp add: afterLaunch_def onFailure_def)
next
  case False
  then have "afterLaunch env sched prompt' img cr = react env prompt'
             ((if sideCrop cr = None then 0 else 1) + (if topCrop cr = None then 0 else 1))
             \<lparr>newProject = \<lparr>projectId = randomUUID env 0, sideView = None, topView = None,
                            originalImage = img\<rparr>,
              resolved = 0, joined = False\<rparr>
             (interleave sched (waiting env prompt' Side (sideCrop cr))
                               (waiting env prompt' Top (topCrop cr)))"
    unfolding afterLaunch_def by (rule if_not_P)
  then have "Request (Stage v st) r \<in> set (react env prompt'
             ((if sideCrop cr = None then 0 else 1) + (if topCrop cr = None then 0 else 1))
             \<lparr>newProject = \<lparr>projectId = randomUUID env 0, sideView = None, topView = None,
                            originalImage = img\<rparr>,
              resolved = 0, joined = False\<rparr>
             (interleave sched (waiting env prompt' Side (sideCrop cr))
                               (waiting env prompt' Top (topCrop cr))))"
    using assms by simp
  from react_requests[OF this]
  have "Emit v (Call st r) \<in> set (interleave sched (waiting env prompt' Side (sideCrop cr))
                                     (waiting env prompt' Top (topCrop cr)))"
    by auto
  from interleave_emits[OF this] waiting_emits show ?thesis by blast
qed

text \<open>
  C9. A crop that succeeds has the mime type image/jpeg, and its data is what the canvas
  encoder returns when asked for image/jpeg, whatever the mime type of the upload; so
  every request that a pipeline stage sends in a run of the generation handler carries an
  image of mime type image/jpeg.
\<close>

theorem cropImage_jpeg:
  "(cropImage env d b = Inr img \<longrightarrow>
      mimeType img = lit ''image/jpeg''
      \<and> (\<exists>cv. data img = toDataURL env cv (lit ''image/jpeg'') (numLit env (95 / 100))))
   \<and> (\<forall>v st r. Request (Stage v st) r \<in> set (handleGenerateEvents env sched s prompt' im)
        \<longrightarrow> imageMime r = Some (lit ''image/jpeg''))"
proof -
  have "imageMime r = Some (lit ''image/jpeg'')"
    if req: "Request (Stage v st) r \<in> set (handleGenerateEvents env sched s prompt' im)" for v st r
  proof (cases "imageToProcess s im")
    case None
    then show ?thesis using req by (simp add: handleGenerateEvents_def)
  next
    case (Some i)
    show ?thesis
    proof (cases "snd (detectAndCropViews env i)")
      case (Inl e)
      then show ?thesis using req Some by (simp add: handleGenerateEvents_def Let_def onFailure_def)
    next
      case (Inr cr)
      have "Request (Stage v st) r \<in> set (started env prompt' cr)
            \<or> Request (Stage v st) r \<in> set (afterLaunch env sched prompt' i cr)"
        using req unfolding handleGenerateEvents_unfold[OF Some Inr] by simp
      then obtain c where c: "sideCrop cr = Some c \<or> topCrop cr = Some c"
        "Call st r \<in> set (pipelineTrace env prompt' c v)"
        using started_requests afterLaunch_requests by blast
      have "mimeType c = lit ''image/jpeg''" using detect_mime[OF Inr] c(1) by auto
      then show ?thesis using pipeline_calls_mime[OF c(2)] by simp
    qed
  qed
  then show ?thesis using cropImage_result[of env d b img] by blast
qed

theorem cropImage_jpeg_witness:
  "cropImage (studio sideOnly) (data upload) box = Inr jpegCrop
   \<and> mimeType jpegCrop = lit ''image/jpeg''
   \<and> mimeType upload = lit ''image/png''
   \<and> Request (Stage Side Draft)
        (fst (generateDraft (studio sideOnly) (generateContent (studio sideOnly) (Stage Side Draft))
               (lit ''go'') jpegCrop Side))
      \<in> set (handleGenerateEvents (studio sideOnly) [] initialApp (lit ''go'') (Some upload))
   \<and> imageMime (fst (generateDraft (studio sideOnly) (generateContent (studio sideOnly) (Stage Side Draft))
               (lit ''go'') jpegCrop Side)) = Some (lit ''image/jpeg'')"
proof -
  have c: "cropImage (studio sideOnly) (data upload) box = Inr jpegCrop"
    by (simp add: studio_def world_crop)
  have h: "imageToProcess initialApp (Some upload) = Some upload"
    by (simp add: imageToProcess_def)
  have s: "snd (detectAndCropViews (studio sideOnly) upload) =
             Inr \<lparr>sideCrop = Some jpegCrop, topCrop = None\<rparr>"
    by (simp add: studio_def world_detect_sideOnly answers_def)
  have m: "Request (Stage Side Draft)
        (fst (generateDraft (studio sideOnly) (generateContent (studio sideOnly) (Stage Side Draft))
               (lit ''go'') jpegCrop Side))
      \<in> set (handleGenerateEvents (studio sideOnly) [] initialApp (lit ''go'') (Some upload))"
    unfolding handleGenerateEvents_unfold[OF h s] by (simp add: started_def launch_first)
  show ?thesis
    using c m cropImage_jpeg [of "studio sideOnly" "data upload" box jpegCrop "[]" initialApp "lit ''go''" "Some upload"]
    by (simp add: upload_def)
qed

section \<open>Properties of the refinement handler\<close>

text \<open>
  C10. Without a project the refinement handler returns at once: it sends no request and
  sets no state, so status, error, pipeline status and project are what they were.
\<close>

theorem handleRefine_no_project:
  assumes "project s = None"
  shows "handleRefineEvents env s prompt' = [] \<and> handleRefine env s prompt' = s"
  using assms by (simp add: handleRefineEvents_def handleRefine_def)

theorem handleRefine_no_project_witness:
  "project initialApp = None
   \<and> handleRefineEvents refiner initialApp (lit ''taller masts'') = []
   \<and> handleRefine refiner initialApp (lit ''taller masts'') = initialApp"
proof -
  have h: "project initialApp = None" by (simp add: initialApp_def)
  show ?thesis
    using h handleRefine_no_project [OF h, of refiner "lit ''taller masts''"] by simp
qed

text \<open>
  C6. A successful refinement of a project whose active view exists replaces the
  content, the prompt and the time stamp of that view and nothing else: the id, the view
  type and the audit report of the view, the other view, the id of the project and its
  original image are unchanged.
\<close>

theorem handleRefine_frame:
  assumes "project s = Some p"
    and "currentSvg s = Some v"
    and "snd (generateWarshipSvg env prompt' None (Some (content v)) 1) = Inr c"
  shows "\<exists>p' v'. project (handleRefine env s prompt') = Some p'
           \<and> currentSvg (handleRefine env s prompt') = Some v'
           \<and> v' = v\<lparr>content := c, prompt := prompt', timestamp := dateNow env 0\<rparr>
           \<and> svgId v' = svgId v \<and> viewType v' = viewType v \<and> auditReport v' = auditReport v
           \<and> (if activeView s = Side then topView p' = topView p else sideView p' = sideView p)
           \<and> projectId p' = projectId p \<and> originalImage p' = originalImage p
           \<and> activeView (handleRefine env s prompt') = activeView s
           \<and> status (handleRefine env s prompt') = SUCCESS"
  using assms
  by (auto simp: handleRefine_def handleRefineEvents_def currentSvg_def Let_def)

theorem handleRefine_frame_witness:
  "project demoApp = Some \<lparr>projectId = lit ''p0'', sideView = Some demoSide,
                           topView = Some demoTop, originalImage = upload\<rparr>
   \<and> currentSvg demoApp = Some demoTop
   \<and> snd (generateWarshipSvg refiner (lit ''add lifeboats'') None (Some (content demoTop)) 1)
       = Inr (lit ''<svg>n</svg>'')
   \<and> project (handleRefine refiner demoApp (lit ''add lifeboats'')) =
       Some \<lparr>projectId = lit ''p0'', sideView = Some demoSide,
             topView = Some (demoTop\<lparr>content := lit ''<svg>n</svg>'',
                                      prompt := lit ''add lifeboats'', timestamp := 1000\<rparr>),
             originalImage = upload\<rparr>"
proof -
  have h1: "project demoApp = Some \<lparr>projectId = lit ''p0'', sideView = Some demoSide,
                                    topView = Some demoTop, originalImage = upload\<rparr>"
    by (simp add: demoApp_def)
  have h2: "currentSvg demoApp = Some demoTop"
    by (simp add: currentSvg_def demoApp_def)
  have h3: "snd (generateWarshipSvg refiner (lit ''add lifeboats'') None (Some (content demoTop)) 1)
              = Inr (lit ''<svg>n</svg>'')"
    by (simp add: generateWarshipSvg_def refiner_def world_def extractSvgOf_def extractSvg_def
        lit_def svgOpen_def svgClose_def canonicalize_def)
  have d: "dateNow refiner 0 = 1000" by (simp add: refiner_def world_def)
  have a: "activeView demoApp = Top" by (simp add: demoApp_def)
  from handleRefine_frame [OF h1 h2 h3] obtain p' v' where
    r: "project (handleRefine refiner demoApp (lit ''add lifeboats'')) = Some p'"
       "currentSvg (handleRefine refiner demoApp (lit ''add lifeboats'')) = Some v'"
       "v' = demoTop\<lparr>content := lit ''<svg>n</svg>'', prompt := lit ''add lifeboats'',
                      timestamp := dateNow refiner 0\<rparr>"
       "if activeView demoApp = Side
        then topView p' = topView \<lparr>projectId = lit ''p0'', sideView = Some demoSide,
                                    topView = Some demoTop, originalImage = upload\<rparr>
        else sideView p' = sideView \<lparr>projectId = lit ''p0'', sideView = Some demoSide,
                                      topView = Some demoTop, originalImage = upload\<rparr>"
       "projectId p' = projectId \<lparr>projectId = lit ''p0'', sideView = Some demoSide,
                                   topView = Some demoTop, originalImage = upload\<rparr>"
       "originalImage p' = originalImage \<lparr>projectId = lit ''p0'', sideView = Some demoSide,
                                           topView = Some demoTop, originalImage = upload\<rparr>"
       "activeView (handleRefine refiner demoApp (lit ''add lifeboats'')) = activeView demoApp"
    by blast
  have t: "topView p' = Some v'"
    using r(1,2,7) a by (simp add: currentSvg_def)
  have "p' = \<lparr>projectId = lit ''p0'', sideView = Some demoSide, topView = Some v',
              originalImage = upload\<rparr>"
    using r(4,5,6) a t by (cases p') simp
  then show ?thesis using h1 h2 h3 r(1,3) d by simp
qed

section \<open>The generation handler without an image\<close>

text \<open>
  C7. Called with no image while there is no project, the generation handler returns
  early. It has by then set the status to SEGMENTING, the pipeline status to
  SCANNING_LAYOUT and the error to null, and the early return skips the block that resets
  them: the state is not what it was.
\<close>

theorem handleGenerate_no_image:
  "handleGenerateEvents env sched initialApp prompt' None =
     [SetStatus SEGMENTING, SetPipelineStatus (lit ''SCANNING_LAYOUT''), SetError None]
   \<and> handleGenerate env sched initialApp prompt' None =
     initialApp\<lparr>status := SEGMENTING, pipelineStatus := lit ''SCANNING_LAYOUT''\<rparr>
   \<and> handleGenerate env sched initialApp prompt' None \<noteq> initialApp"
  by (simp add: handleGenerateEvents_def handleGenerate_def imageToProcess_def initialApp_def)

end
